theory Spec2Isabelle
  imports Main
begin

section \<open>The user count store: schema, triggers, reconciliation and read path\<close>

text \<open>
  The repository keeps the number of rows of the table \<open>user_list\<close> in the single-row
  table \<open>user_stats\<close>. Two row-level triggers adjust the counter on every insert and
  delete, a stored function recomputes it by a full scan, and a Node.js class reads it
  and serves it over HTTP. The database is modelled as a record of two tables, every
  SQL statement as a function from a database to either an SQL error or a new database,
  and every JavaScript exception as a value.
\<close>

subsection \<open>Tables (schema.sql, the two CREATE TABLE statements)\<close>

text \<open>
  \<open>CURRENT_TIMESTAMP\<close> is the start time of the running transaction; it is an argument
  \<open>now\<close> of every statement. A row of \<open>user_list\<close> has the five columns of the table;
  the column \<open>id\<close> is called \<open>user_id\<close>, and the column \<open>id\<close> of \<open>user_stats\<close> is
  called \<open>stats_id\<close>.
\<close>

type_synonym timestamp = int

record user =
  user_id :: int
  username :: string
  email :: string
  created_at :: timestamp
  updated_at :: timestamp

record user_stats_row =
  stats_id :: int
  total_users :: int
  last_updated :: timestamp

record db =
  user_list :: "user list"
  user_stats :: "user_stats_row list"

text \<open>
  The SQL errors the statements of the repository can raise, with their SQLSTATE: a
  violated PRIMARY KEY or UNIQUE constraint, with the name of the constraint (23505,
  the code \<open>setup.js\<close> tests for); a NULL in a NOT NULL column, with the name of the
  column (23502); a string too long for VARCHAR(255) (22001); an INTEGER value outside
  \<open>-2147483648 .. 2147483647\<close> (22003).
\<close>

datatype sql_error =
  UniqueViolation string
| NotNullViolation string
| StringDataRightTruncation
| NumericValueOutOfRange

fun sqlstate :: "sql_error \<Rightarrow> string" where
  "sqlstate (UniqueViolation c) = ''23505''"
| "sqlstate (NotNullViolation c) = ''23502''"
| "sqlstate StringDataRightTruncation = ''22001''"
| "sqlstate NumericValueOutOfRange = ''22003''"

definition int4_min :: int where
  "int4_min = - 2147483648"

definition int4_max :: int where
  "int4_max = 2147483647"

text \<open>A value stored in, or computed at, the type INTEGER: out of range is an error.\<close>

definition int4 :: "int \<Rightarrow> sql_error + int" where
  "int4 n = (if int4_min \<le> n \<and> n \<le> int4_max then Inr n else Inl NumericValueOutOfRange)"

text \<open>
  The constraints the schema declares: \<open>user_list\<close> has a primary key and two UNIQUE
  columns; \<open>user_stats\<close> has a primary key, the check \<open>id = 1\<close>, and INTEGER columns.
\<close>

definition valid_user_list :: "user list \<Rightarrow> bool" where
  "valid_user_list tbl \<longleftrightarrow>
     distinct (map user_id tbl) \<and> distinct (map username tbl) \<and> distinct (map email tbl)"

definition valid_user_stats :: "user_stats_row list \<Rightarrow> bool" where
  "valid_user_stats tbl \<longleftrightarrow>
     distinct (map stats_id tbl) \<and>
     list_all (\<lambda>r. stats_id r = 1 \<and> int4_min \<le> total_users r \<and> total_users r \<le> int4_max) tbl"

definition valid_db :: "db \<Rightarrow> bool" where
  "valid_db d \<longleftrightarrow> valid_user_list (user_list d) \<and> valid_user_stats (user_stats d)"

subsection \<open>Provisioning (schema.sql, lines 5 to 24)\<close>

text \<open>
  \<open>CREATE TABLE IF NOT EXISTS\<close> keeps a table that exists; a table that does not exist
  is created empty, so a database without the tables is the database with two empty
  tables. The schema then inserts the counter row unless a row with \<open>id = 1\<close> exists
  (\<open>ON CONFLICT (id) DO NOTHING\<close>).
\<close>

definition empty_db :: db where
  "empty_db = \<lparr>user_list = [], user_stats = []\<rparr>"

definition init_user_stats :: "timestamp \<Rightarrow> user_stats_row list \<Rightarrow> user_stats_row list" where
  "init_user_stats now tbl =
     (if \<exists>r \<in> set tbl. stats_id r = 1 then tbl
      else tbl @ [\<lparr>stats_id = 1, total_users = 0, last_updated = now\<rparr>])"

definition schema_sql :: "timestamp \<Rightarrow> db \<Rightarrow> db" where
  "schema_sql now d = d\<lparr>user_stats := init_user_stats now (user_stats d)\<rparr>"

subsection \<open>The trigger function \<open>update_user_count\<close> (schema.sql, lines 27 to 47)\<close>

text \<open>
  \<open>UPDATE user_stats SET total_users = f(total_users), last_updated = CURRENT_TIMESTAMP
  WHERE id = 1\<close>: every row with \<open>id = 1\<close> is rewritten, the others are kept, and a
  table without such a row is left as it is (an UPDATE that matches no row is not an
  error). The new value is an INTEGER.
\<close>

fun update_user_stats ::
  "(int \<Rightarrow> int) \<Rightarrow> timestamp \<Rightarrow> user_stats_row list \<Rightarrow> sql_error + user_stats_row list" where
  "update_user_stats f now [] = Inr []"
| "update_user_stats f now (r # rs) =
     (if stats_id r = 1 then
        (case int4 (f (total_users r)) of
           Inl e \<Rightarrow> Inl e
         | Inr n \<Rightarrow>
             (case update_user_stats f now rs of
                Inl e \<Rightarrow> Inl e
              | Inr rs' \<Rightarrow> Inr (r\<lparr>total_users := n, last_updated := now\<rparr> # rs')))
      else
        (case update_user_stats f now rs of
           Inl e \<Rightarrow> Inl e
         | Inr rs' \<Rightarrow> Inr (r # rs')))"

datatype tg_op = INSERT | UPDATE | DELETE | TRUNCATE

text \<open>
  The function body. Its return value (\<open>NEW\<close>, \<open>OLD\<close> or \<open>NULL\<close>) is ignored by
  PostgreSQL for an AFTER trigger, so the model returns the database only.
\<close>

definition update_user_count :: "tg_op \<Rightarrow> timestamp \<Rightarrow> db \<Rightarrow> sql_error + db" where
  "update_user_count TG_OP now d =
     (if TG_OP = INSERT then
        (case update_user_stats (\<lambda>n. n + 1) now (user_stats d) of
           Inl e \<Rightarrow> Inl e
         | Inr s \<Rightarrow> Inr (d\<lparr>user_stats := s\<rparr>))
      else if TG_OP = DELETE then
        (case update_user_stats (\<lambda>n. n - 1) now (user_stats d) of
           Inl e \<Rightarrow> Inl e
         | Inr s \<Rightarrow> Inr (d\<lparr>user_stats := s\<rparr>))
      else Inr d)"

subsection \<open>The triggers (schema.sql, lines 50 to 60)\<close>

text \<open>
  \<open>AFTER INSERT ... FOR EACH ROW\<close> and \<open>AFTER DELETE ... FOR EACH ROW\<close>: once the
  statement has changed \<open>user_list\<close>, the function runs once for every row the statement
  inserted or deleted, inside the statement's transaction.
\<close>

fun for_each_row :: "tg_op \<Rightarrow> timestamp \<Rightarrow> user list \<Rightarrow> db \<Rightarrow> sql_error + db" where
  "for_each_row TG_OP now [] d = Inr d"
| "for_each_row TG_OP now (r # rs) d =
     (case update_user_count TG_OP now d of
        Inl e \<Rightarrow> Inl e
      | Inr d' \<Rightarrow> for_each_row TG_OP now rs d')"

definition user_insert_trigger :: "timestamp \<Rightarrow> user list \<Rightarrow> db \<Rightarrow> sql_error + db" where
  "user_insert_trigger = for_each_row INSERT"

definition user_delete_trigger :: "timestamp \<Rightarrow> user list \<Rightarrow> db \<Rightarrow> sql_error + db" where
  "user_delete_trigger = for_each_row DELETE"

subsection \<open>INSERT and DELETE on \<open>user_list\<close>\<close>

text \<open>
  The values of one row of an INSERT statement, each a value or NULL (\<open>None\<close>).
  \<open>setup.js\<close> gives the username and the email and leaves \<open>id\<close> to the SERIAL
  default; \<open>new_id\<close> is the value the default (or the statement) supplies.
  \<open>created_at\<close> and \<open>updated_at\<close> take their default. A string is the list of its
  characters.
\<close>

record user_values =
  new_id :: "int option"
  new_username :: "string option"
  new_email :: "string option"

text \<open>
  The values are first brought to the types of their columns. A value for an INTEGER
  column must lie in the range of the type (SQLSTATE 22003). A value for a
  VARCHAR(255) column may have at most 255 characters; characters beyond are cut off
  when all of them are spaces, and are an error otherwise (SQLSTATE 22001). NULL
  passes. The columns are taken in their order, \<open>id\<close>, \<open>username\<close>, \<open>email\<close>, and the
  rows of the statement in theirs; the values are constants, so all of this happens
  before the first row is stored.
\<close>

definition integer_value :: "int option \<Rightarrow> sql_error + int option" where
  "integer_value x =
     (case x of
        None \<Rightarrow> Inr None
      | Some n \<Rightarrow> (case int4 n of Inl e \<Rightarrow> Inl e | Inr m \<Rightarrow> Inr (Some m)))"

definition varchar_255 :: "string option \<Rightarrow> sql_error + string option" where
  "varchar_255 x =
     (case x of
        None \<Rightarrow> Inr None
      | Some s \<Rightarrow>
          if length s \<le> 255 then Inr (Some s)
          else if list_all (\<lambda>c. c = CHR '' '') (drop 255 s) then Inr (Some (take 255 s))
          else Inl StringDataRightTruncation)"

definition coerce_values :: "user_values \<Rightarrow> sql_error + user_values" where
  "coerce_values v =
     (case integer_value (new_id v) of
        Inl e \<Rightarrow> Inl e
      | Inr i \<Rightarrow>
          (case varchar_255 (new_username v) of
             Inl e \<Rightarrow> Inl e
           | Inr u \<Rightarrow>
               (case varchar_255 (new_email v) of
                  Inl e \<Rightarrow> Inl e
                | Inr m \<Rightarrow> Inr \<lparr>new_id = i, new_username = u, new_email = m\<rparr>)))"

fun coerce_rows :: "user_values list \<Rightarrow> sql_error + user_values list" where
  "coerce_rows [] = Inr []"
| "coerce_rows (v # vs) =
     (case coerce_values v of
        Inl e \<Rightarrow> Inl e
      | Inr w \<Rightarrow> (case coerce_rows vs of Inl e \<Rightarrow> Inl e | Inr ws \<Rightarrow> Inr (w # ws)))"

text \<open>
  The row to store, with the defaults of \<open>created_at\<close> and \<open>updated_at\<close>. The three
  columns are NOT NULL (\<open>id\<close> as the primary key); the first NULL among them, in the
  order of the columns, is the error (SQLSTATE 23502).
\<close>

definition new_row :: "timestamp \<Rightarrow> user_values \<Rightarrow> sql_error + user" where
  "new_row now v =
     (case new_id v of
        None \<Rightarrow> Inl (NotNullViolation ''id'')
      | Some i \<Rightarrow>
          (case new_username v of
             None \<Rightarrow> Inl (NotNullViolation ''username'')
           | Some u \<Rightarrow>
               (case new_email v of
                  None \<Rightarrow> Inl (NotNullViolation ''email'')
                | Some m \<Rightarrow>
                    Inr \<lparr>user_id = i, username = u, email = m,
                         created_at = now, updated_at = now\<rparr>)))"

text \<open>
  The unique indexes of the table, in the order of their creation: the primary key,
  then the UNIQUE constraints of \<open>username\<close> and \<open>email\<close>. The first one that holds
  the key of the new row already names the violated constraint.
\<close>

definition violated_constraint :: "user \<Rightarrow> user list \<Rightarrow> string option" where
  "violated_constraint r tbl =
     (if \<exists>x \<in> set tbl. user_id x = user_id r then Some ''user_list_pkey''
      else if \<exists>x \<in> set tbl. username x = username r then Some ''user_list_username_key''
      else if \<exists>x \<in> set tbl. email x = email r then Some ''user_list_email_key''
      else None)"

text \<open>
  The rows are stored one after the other; each is checked for NULLs and then against
  the rows already in the table, those of the same statement included.
\<close>

fun store_rows :: "timestamp \<Rightarrow> user_values list \<Rightarrow> user list \<Rightarrow> sql_error + user list" where
  "store_rows now [] tbl = Inr tbl"
| "store_rows now (w # ws) tbl =
     (case new_row now w of
        Inl e \<Rightarrow> Inl e
      | Inr r \<Rightarrow>
          (case violated_constraint r tbl of
             Some c \<Rightarrow> Inl (UniqueViolation c)
           | None \<Rightarrow> store_rows now ws (tbl @ [r])))"

text \<open>The table after the rows of the statement are inserted, or the error.\<close>

definition insert_rows :: "timestamp \<Rightarrow> user_values list \<Rightarrow> user list \<Rightarrow> sql_error + user list" where
  "insert_rows now vs tbl =
     (case coerce_rows vs of
        Inl e \<Rightarrow> Inl e
      | Inr ws \<Rightarrow> store_rows now ws tbl)"

text \<open>The trigger runs for the rows the statement has added to the table.\<close>

definition insert_user_list :: "timestamp \<Rightarrow> user_values list \<Rightarrow> db \<Rightarrow> sql_error + db" where
  "insert_user_list now vs d =
     (case insert_rows now vs (user_list d) of
        Inl e \<Rightarrow> Inl e
      | Inr tbl \<Rightarrow>
          user_insert_trigger now (drop (length (user_list d)) tbl) (d\<lparr>user_list := tbl\<rparr>))"


text \<open>\<open>DELETE FROM user_list WHERE cond\<close>: the rows that satisfy \<open>cond\<close> are removed.\<close>

definition delete_user_list :: "timestamp \<Rightarrow> (user \<Rightarrow> bool) \<Rightarrow> db \<Rightarrow> sql_error + db" where
  "delete_user_list now cond d =
     user_delete_trigger now (filter cond (user_list d))
       (d\<lparr>user_list := filter (\<lambda>r. \<not> cond r) (user_list d)\<rparr>)"

text \<open>
  A statement outside an explicit transaction is a transaction of its own: it commits
  if it succeeds, and an error rolls all of it back, the trigger's work included.
\<close>

datatype statement = InsertInto "user_values list" | DeleteFrom "user \<Rightarrow> bool"

fun run_statement :: "timestamp \<Rightarrow> statement \<Rightarrow> db \<Rightarrow> sql_error + db" where
  "run_statement now (InsertInto vs) d = insert_user_list now vs d"
| "run_statement now (DeleteFrom cond) d = delete_user_list now cond d"

definition transaction :: "timestamp \<Rightarrow> statement \<Rightarrow> db \<Rightarrow> sql_error option \<times> db" where
  "transaction now st d =
     (case run_statement now st d of
        Inl e \<Rightarrow> (Some e, d)
      | Inr d' \<Rightarrow> (None, d'))"

text \<open>
  The states of the database after each transaction of a sequence, the transactions
  taken one after the other, each with its own start time.
\<close>

fun history :: "(timestamp \<times> statement) list \<Rightarrow> db \<Rightarrow> db list" where
  "history [] d = []"
| "history ((now, st) # txs) d =
     (let d' = snd (transaction now st d) in d' # history txs d')"

subsection \<open>Reconciliation: \<open>recalculate_user_count\<close> (schema.sql, lines 68 to 82)\<close>

text \<open>
  \<open>COUNT(*)\<close> is a BIGINT; \<open>SELECT ... INTO actual_count\<close> stores it in an INTEGER
  variable, which fails when the value does not fit.
\<close>

definition recalculate_user_count :: "timestamp \<Rightarrow> db \<Rightarrow> sql_error + (int \<times> db)" where
  "recalculate_user_count now d =
     (case int4 (int (length (user_list d))) of
        Inl e \<Rightarrow> Inl e
      | Inr actual_count \<Rightarrow>
          (case update_user_stats (\<lambda>n. actual_count) now (user_stats d) of
             Inl e \<Rightarrow> Inl e
           | Inr s \<Rightarrow> Inr (actual_count, d\<lparr>user_stats := s\<rparr>)))"

text \<open>
  A call \<open>SELECT recalculate_user_count()\<close> as a transaction of its own: the value
  returned and the database after it; an error leaves the database as it was.
\<close>

definition reconcile :: "timestamp \<Rightarrow> db \<Rightarrow> (sql_error + int) \<times> db" where
  "reconcile now d =
     (case recalculate_user_count now d of
        Inl e \<Rightarrow> (Inl e, d)
      | Inr (actual_count, d') \<Rightarrow> (Inr actual_count, d'))"

text \<open>The counter agrees with the ledger: one row, with \<open>id = 1\<close>, holding the row count.\<close>

definition consistent :: "db \<Rightarrow> bool" where
  "consistent d \<longleftrightarrow>
     (case user_stats d of
        [r] \<Rightarrow> stats_id r = 1 \<and> total_users r = int (length (user_list d))
      | _ \<Rightarrow> False)"

subsection \<open>The connection class (connection.js): \<open>query\<close> and \<open>getUserCount\<close>\<close>

text \<open>
  A JavaScript \<open>Error\<close> with its optional \<open>code\<close> property. An error raised by the
  server carries the SQLSTATE as its code; a driver error carries a code such as
  \<open>ECONNREFUSED\<close>; an \<open>Error\<close> made by \<open>new Error(...)\<close> carries none.
\<close>

record js_error =
  code :: "string option"
  message :: string

text \<open>
  The messages of the server. A name in a message stands in double quotes, as in
  \<open>duplicate key value violates unique constraint "user_list_email_key"\<close>.
\<close>

definition quoted :: "string \<Rightarrow> string" where
  "quoted name = [CHR 0x22] @ name @ [CHR 0x22]"

fun sql_message :: "sql_error \<Rightarrow> string" where
  "sql_message (UniqueViolation c) =
     ''duplicate key value violates unique constraint '' @ quoted c"
| "sql_message (NotNullViolation c) =
     ''null value in column '' @ quoted c @ '' of relation '' @ quoted ''user_list'' @
     '' violates not-null constraint''"
| "sql_message StringDataRightTruncation = ''value too long for type character varying(255)''"
| "sql_message NumericValueOutOfRange = ''integer out of range''"

definition database_error :: "sql_error \<Rightarrow> js_error" where
  "database_error e = \<lparr>code = Some (sqlstate e), message = sql_message e\<rparr>"

text \<open>
  The two fields of \<open>DatabaseConnection\<close>: \<open>pool\<close> tells whether \<open>this.pool\<close> is set
  (it is \<open>null\<close> before \<open>connect\<close>), \<open>isConnected\<close> is the flag of the class.
\<close>

record connection =
  pool :: bool
  isConnected :: bool

text \<open>
  \<open>query(text, params)\<close>. The SQL text is given by what it does to the database. The
  argument \<open>fault\<close> is the error \<open>pool.query\<close> rejects with when the statement does not
  reach the server (\<open>None\<close> when it does). The \<open>catch\<close> block logs and throws the same
  error again. A statement that fails leaves the database as it was.
\<close>

definition query ::
  "connection \<Rightarrow> js_error option \<Rightarrow> (db \<Rightarrow> sql_error + 'r \<times> db) \<Rightarrow> db \<Rightarrow> (js_error + 'r) \<times> db" where
  "query conn fault text d =
     (if \<not> pool conn \<or> \<not> isConnected conn then
        (Inl \<lparr>code = None, message = ''Database not connected. Call connect() first.''\<rparr>, d)
      else
        (case fault of
           Some error \<Rightarrow> (Inl error, d)
         | None \<Rightarrow>
             (case text d of
                Inl e \<Rightarrow> (Inl (database_error e), d)
              | Inr (result, d') \<Rightarrow> (Inr result, d'))))"

text \<open>\<open>SELECT total_users, last_updated FROM user_stats WHERE id = 1\<close>: the rows of the result.\<close>

definition select_user_stats :: "db \<Rightarrow> sql_error + (int \<times> timestamp) list \<times> db" where
  "select_user_stats d =
     Inr (map (\<lambda>r. (total_users r, last_updated r)) (filter (\<lambda>r. stats_id r = 1) (user_stats d)), d)"

text \<open>\<open>SELECT recalculate_user_count()\<close>: one row, holding the value the function returns.\<close>

definition select_recalculate_user_count :: "timestamp \<Rightarrow> db \<Rightarrow> sql_error + int list \<times> db" where
  "select_recalculate_user_count now d =
     (case recalculate_user_count now d of
        Inl e \<Rightarrow> Inl e
      | Inr (actual_count, d') \<Rightarrow> Inr ([actual_count], d'))"

text \<open>\<open>rows[0]\<close>: the first element, or \<open>undefined\<close> (here \<open>None\<close>) on an empty array.\<close>

fun first_row :: "'a list \<Rightarrow> 'a option" where
  "first_row [] = None"
| "first_row (r # rs) = Some r"

text \<open>
  \<open>getUserCount()\<close>. \<open>link k\<close> is the fault of the \<open>k\<close>-th query of the call. The result
  is the error thrown, or the value returned: a row, or \<open>undefined\<close>.
\<close>

definition getUserCount ::
  "connection \<Rightarrow> (nat \<Rightarrow> js_error option) \<Rightarrow> timestamp \<Rightarrow> db
     \<Rightarrow> (js_error + (int \<times> timestamp) option) \<times> db" where
  "getUserCount conn link now d =
     (case query conn (link 0) select_user_stats d of
        (Inl error, d1) \<Rightarrow> (Inl error, d1)
      | (Inr rows, d1) \<Rightarrow>
          if length rows = 0 then
            (case query conn (link 1) (select_recalculate_user_count now) d1 of
               (Inl error, d2) \<Rightarrow> (Inl error, d2)
             | (Inr _, d2) \<Rightarrow>
                 (case query conn (link 2) select_user_stats d2 of
                    (Inl error, d3) \<Rightarrow> (Inl error, d3)
                  | (Inr recalcRows, d3) \<Rightarrow> (Inr (first_row recalcRows), d3)))
          else (Inr (first_row rows), d1))"


subsection \<open>The HTTP layer (server.js)\<close>

text \<open>
  A reply is a status code and a JSON body. \<open>date\<close> is \<open>new Date().toISOString()\<close> at
  the time of the reply.
\<close>

datatype body =
  UserCount int timestamp
| Failure string string string

record reply =
  statusCode :: nat
  payload :: body

text \<open>
  The handler of \<open>GET /api/usercount\<close>, on the outcome of \<open>getUserCount()\<close>. Reading
  \<open>total_users\<close> of \<open>undefined\<close> throws a TypeError inside the \<open>try\<close> block, so that
  case ends in the \<open>catch\<close> block as every thrown error does. \<open>total_users\<close> is a
  JavaScript integer, which \<open>parseInt\<close> returns as it is.
\<close>

definition usercount_catch :: "string \<Rightarrow> reply" where
  "usercount_catch date =
     \<lparr>statusCode = 500,
      payload = Failure ''Internal Server Error'' ''Failed to retrieve user count'' date\<rparr>"

definition usercount_handler :: "string \<Rightarrow> (js_error + (int \<times> timestamp) option) \<Rightarrow> reply" where
  "usercount_handler date outcome =
     (case outcome of
        Inr (Some (totalUsers, lastUpdated)) \<Rightarrow>
          \<lparr>statusCode = 200, payload = UserCount totalUsers lastUpdated\<rparr>
      | Inr None \<Rightarrow> usercount_catch date
      | Inl error \<Rightarrow> usercount_catch date)"

definition get_api_usercount ::
  "connection \<Rightarrow> (nat \<Rightarrow> js_error option) \<Rightarrow> timestamp \<Rightarrow> string \<Rightarrow> db \<Rightarrow> reply \<times> db" where
  "get_api_usercount conn link now date d =
     (case getUserCount conn link now d of
        (outcome, d') \<Rightarrow> (usercount_handler date outcome, d'))"

text \<open>
  The global error handler (\<open>setErrorHandler\<close>), which Fastify calls with an error that
  a route handler lets escape.
\<close>

definition errorHandler :: "string \<Rightarrow> js_error \<Rightarrow> reply" where
  "errorHandler date error =
     (if code error = Some ''ECONNREFUSED'' \<or> code error = Some ''ENOTFOUND'' then
        \<lparr>statusCode = 503,
         payload = Failure ''Service Unavailable'' ''Database connection failed'' date\<rparr>
      else
        \<lparr>statusCode = 500,
         payload = Failure ''Internal Server Error'' ''An unexpected error occurred'' date\<rparr>)"

subsection \<open>States the operations can reach from the provisioned database\<close>

inductive reachable :: "db \<Rightarrow> bool" where
  provisioned: "reachable (schema_sql now empty_db)"
| mutation: "reachable d \<Longrightarrow> reachable (snd (transaction now st d))"
| reconciliation: "reachable d \<Longrightarrow> reachable (snd (reconcile now d))"
| read: "reachable d \<Longrightarrow> reachable (snd (getUserCount conn link now d))"

subsection \<open>Single-row statements in sequence\<close>

text \<open>
  For the comparison of a multi-row statement with single-row statements: the rows of
  an INSERT inserted by one statement each, and the rows of a DELETE deleted by one
  statement each, \<open>DELETE FROM user_list WHERE id = ...\<close>. The first error ends the
  sequence.
\<close>

fun insert_one_by_one :: "timestamp \<Rightarrow> user_values list \<Rightarrow> db \<Rightarrow> sql_error + db" where
  "insert_one_by_one now [] d = Inr d"
| "insert_one_by_one now (v # vs) d =
     (case insert_user_list now [v] d of
        Inl e \<Rightarrow> Inl e
      | Inr d' \<Rightarrow> insert_one_by_one now vs d')"

fun delete_one_by_one :: "timestamp \<Rightarrow> user list \<Rightarrow> db \<Rightarrow> sql_error + db" where
  "delete_one_by_one now [] d = Inr d"
| "delete_one_by_one now (r # rs) d =
     (case delete_user_list now (\<lambda>x. user_id x = user_id r) d of
        Inl e \<Rightarrow> Inl e
      | Inr d' \<Rightarrow> delete_one_by_one now rs d')"

subsection \<open>A ledger of any size\<close>

text \<open>
  Rows numbered from \<open>0\<close>, with the number in decimal as username and in the email
  address; a table of \<open>n\<close> such rows satisfies the constraints of \<open>user_list\<close>.
\<close>

fun decimal :: "nat \<Rightarrow> string" where
  "decimal n =
     (if n < 10 then [char_of (48 + n)]
      else decimal (n div 10) @ [char_of (48 + n mod 10)])"

declare decimal.simps [simp del]

definition numbered_user :: "nat \<Rightarrow> user" where
  "numbered_user i =
     \<lparr>user_id = int i, username = decimal i, email = decimal i @ ''@example.com'',
      created_at = 0, updated_at = 0\<rparr>"

definition numbered_user_list :: "nat \<Rightarrow> user list" where
  "numbered_user_list n = map numbered_user [0..<n]"

section \<open>Properties\<close>

subsection \<open>INTEGER values and the UPDATE of the counter row\<close>

lemma int4_Inr: "int4 n = Inr m \<longleftrightarrow> m = n \<and> int4_min \<le> n \<and> n \<le> int4_max"
  by (auto simp: int4_def)

lemma int4_Inl: "int4 n = Inl e \<longleftrightarrow> e = NumericValueOutOfRange \<and> \<not> (int4_min \<le> n \<and> n \<le> int4_max)"
  by (auto simp: int4_def)

lemma update_user_stats_single:
  "stats_id s = 1 \<Longrightarrow>
   update_user_stats f now [s] =
     (case int4 (f (total_users s)) of
        Inl e \<Rightarrow> Inl e
      | Inr n \<Rightarrow> Inr [s\<lparr>total_users := n, last_updated := now\<rparr>])"
  by (simp split: sum.splits)

lemma update_user_count_INSERT_single:
  assumes "user_stats d = [s]" and "stats_id s = 1" and "update_user_count INSERT now d = Inr d'"
  shows "d' = d\<lparr>user_stats := [s\<lparr>total_users := total_users s + 1, last_updated := now\<rparr>]\<rparr>"
  using assms by (auto simp: update_user_count_def int4_Inr split: sum.splits)

lemma update_user_count_DELETE_single:
  assumes "user_stats d = [s]" and "stats_id s = 1" and "update_user_count DELETE now d = Inr d'"
  shows "d' = d\<lparr>user_stats := [s\<lparr>total_users := total_users s - 1, last_updated := now\<rparr>]\<rparr>"
  using assms by (auto simp: update_user_count_def int4_Inr split: sum.splits)

lemma for_each_row_INSERT:
  "user_stats d = [s] \<Longrightarrow> stats_id s = 1 \<Longrightarrow> for_each_row INSERT now rs d = Inr d' \<Longrightarrow>
   d' = d\<lparr>user_stats :=
     [s\<lparr>total_users := total_users s + int (length rs),
        last_updated := (if rs = [] then last_updated s else now)\<rparr>]\<rparr>"
proof (induction rs arbitrary: d s)
  case Nil
  then show ?case by simp
next
  case (Cons r rs)
  from Cons.prems obtain d1 where
    d1: "update_user_count INSERT now d = Inr d1" and rest: "for_each_row INSERT now rs d1 = Inr d'"
    by (auto split: sum.splits)
  let ?s1 = "s\<lparr>total_users := total_users s + 1, last_updated := now\<rparr>"
  from update_user_count_INSERT_single [OF Cons.prems(1,2) d1]
  have e1: "d1 = d\<lparr>user_stats := [?s1]\<rparr>" .
  then have s1: "user_stats d1 = [?s1]" by simp
  from Cons.prems(2) have i1: "stats_id ?s1 = 1" by simp
  from Cons.IH [OF s1 i1 rest] e1 show ?case
    by (simp add: algebra_simps)
qed

lemma for_each_row_DELETE:
  "user_stats d = [s] \<Longrightarrow> stats_id s = 1 \<Longrightarrow> for_each_row DELETE now rs d = Inr d' \<Longrightarrow>
   d' = d\<lparr>user_stats :=
     [s\<lparr>total_users := total_users s - int (length rs),
        last_updated := (if rs = [] then last_updated s else now)\<rparr>]\<rparr>"
proof (induction rs arbitrary: d s)
  case Nil
  then show ?case by simp
next
  case (Cons r rs)
  from Cons.prems obtain d1 where
    d1: "update_user_count DELETE now d = Inr d1" and rest: "for_each_row DELETE now rs d1 = Inr d'"
    by (auto split: sum.splits)
  let ?s1 = "s\<lparr>total_users := total_users s - 1, last_updated := now\<rparr>"
  from update_user_count_DELETE_single [OF Cons.prems(1,2) d1]
  have e1: "d1 = d\<lparr>user_stats := [?s1]\<rparr>" .
  then have s1: "user_stats d1 = [?s1]" by simp
  from Cons.prems(2) have i1: "stats_id ?s1 = 1" by simp
  from Cons.IH [OF s1 i1 rest] e1 show ?case
    by (simp add: algebra_simps)
qed

subsection \<open>Statements on \<open>user_list\<close> keep the counter in step\<close>

lemma coerce_rows_length: "coerce_rows vs = Inr ws \<Longrightarrow> length ws = length vs"
  by (induction vs arbitrary: ws) (auto split: sum.splits)

lemma store_rows_Inr:
  "store_rows now ws tbl = Inr tbl' \<Longrightarrow> \<exists>rs. tbl' = tbl @ rs \<and> length rs = length ws"
proof (induction ws arbitrary: tbl)
  case Nil
  then show ?case by simp
next
  case (Cons w ws)
  from Cons.prems obtain r where "store_rows now ws (tbl @ [r]) = Inr tbl'"
    by (auto split: sum.splits option.splits)
  from Cons.IH [OF this] obtain rs where "tbl' = (tbl @ [r]) @ rs" and "length rs = length ws"
    by blast
  then have "tbl' = tbl @ (r # rs) \<and> length (r # rs) = length (w # ws)" by simp
  then show ?case by blast
qed

lemma insert_rows_Inr:
  assumes "insert_rows now vs tbl = Inr tbl'"
  shows "\<exists>rs. tbl' = tbl @ rs \<and> length rs = length vs"
proof -
  from assms obtain ws where c: "coerce_rows vs = Inr ws" and s: "store_rows now ws tbl = Inr tbl'"
    by (auto simp: insert_rows_def split: sum.splits)
  from store_rows_Inr [OF s] coerce_rows_length [OF c] show ?thesis by simp
qed

text \<open>A statement of one row: the checks in their order.\<close>

lemma insert_rows_single:
  "insert_rows now [v] tbl =
     (case coerce_values v of
        Inl e \<Rightarrow> Inl e
      | Inr w \<Rightarrow>
          (case new_row now w of
             Inl e \<Rightarrow> Inl e
           | Inr r \<Rightarrow>
               (case violated_constraint r tbl of
                  Some c \<Rightarrow> Inl (UniqueViolation c)
                | None \<Rightarrow> Inr (tbl @ [r]))))"
  by (simp add: insert_rows_def split: sum.splits option.splits)

text \<open>
  The checks on single values: a NULL username, an \<open>id\<close> beyond INTEGER, and a
  username of 255 letters followed by a space, which is stored without the space.
\<close>

lemma insert_rows_null_username:
  "insert_rows 9 [\<lparr>new_id = Some 1, new_username = None, new_email = Some ''a@example.com''\<rparr>] [] =
   Inl (NotNullViolation ''username'')"
  by (simp add: insert_rows_def coerce_values_def integer_value_def varchar_255_def new_row_def
    int4_def int4_min_def int4_max_def)

lemma insert_rows_id_out_of_range:
  "insert_rows 9 [\<lparr>new_id = Some 2147483648, new_username = Some ''ann'',
                    new_email = Some ''a@example.com''\<rparr>] [] =
   Inl NumericValueOutOfRange"
  by (simp add: insert_rows_def coerce_values_def integer_value_def int4_def int4_min_def
    int4_max_def)

lemma varchar_255_trailing_space:
  "varchar_255 (Some (replicate 255 (CHR ''z'') @ '' '')) = Inr (Some (replicate 255 (CHR ''z'')))"
  by (simp add: varchar_255_def)

lemma insert_user_list_single:
  assumes "user_stats d = [s]" and "stats_id s = 1" and "insert_user_list now vs d = Inr d'"
  shows "\<exists>tbl. insert_rows now vs (user_list d) = Inr tbl \<and>
           d' = \<lparr>user_list = tbl,
                 user_stats = [s\<lparr>total_users := total_users s + int (length vs),
                   last_updated := (if vs = [] then last_updated s else now)\<rparr>]\<rparr>"
proof -
  from assms(3) obtain tbl where
    t: "insert_rows now vs (user_list d) = Inr tbl" and
    f: "for_each_row INSERT now (drop (length (user_list d)) tbl) (d\<lparr>user_list := tbl\<rparr>) = Inr d'"
    by (auto simp: insert_user_list_def user_insert_trigger_def split: sum.splits)
  from insert_rows_Inr [OF t] obtain rs where
    rs: "tbl = user_list d @ rs" "length rs = length vs" by blast
  then have dr: "drop (length (user_list d)) tbl = rs" by simp
  from assms(1) have "user_stats (d\<lparr>user_list := tbl\<rparr>) = [s]" by simp
  from for_each_row_INSERT [OF this assms(2) f [unfolded dr]] rs(2)
  have "d' = \<lparr>user_list = tbl,
                 user_stats = [s\<lparr>total_users := total_users s + int (length vs),
                   last_updated := (if vs = [] then last_updated s else now)\<rparr>]\<rparr>"
    by auto
  with t show ?thesis by blast
qed

lemma delete_user_list_single:
  assumes "user_stats d = [s]" and "stats_id s = 1" and "delete_user_list now cond d = Inr d'"
  shows "d' = \<lparr>user_list = filter (\<lambda>r. \<not> cond r) (user_list d),
               user_stats = [s\<lparr>total_users := total_users s - int (length (filter cond (user_list d))),
                 last_updated := (if filter cond (user_list d) = [] then last_updated s else now)\<rparr>]\<rparr>"
proof -
  let ?d1 = "d\<lparr>user_list := filter (\<lambda>r. \<not> cond r) (user_list d)\<rparr>"
  from assms(3) have
    f: "for_each_row DELETE now (filter cond (user_list d)) ?d1 = Inr d'"
    by (simp add: delete_user_list_def user_delete_trigger_def)
  from assms(1) have "user_stats ?d1 = [s]" by simp
  from for_each_row_DELETE [OF this assms(2) f]
  show ?thesis by simp
qed

lemma consistentD:
  "consistent d \<Longrightarrow> \<exists>s. user_stats d = [s] \<and> stats_id s = 1 \<and> total_users s = int (length (user_list d))"
  by (auto simp: consistent_def split: list.splits)

lemma run_statement_consistent:
  assumes "consistent d" and "run_statement now st d = Inr d'"
  shows "consistent d'"
proof -
  from consistentD [OF assms(1)] obtain s where
    s: "user_stats d = [s]" "stats_id s = 1" "total_users s = int (length (user_list d))"
    by blast
  show ?thesis
  proof (cases st)
    case (InsertInto vs)
    with assms(2) have "insert_user_list now vs d = Inr d'" by simp
    from insert_user_list_single [OF s(1,2) this] obtain tbl where
      t: "insert_rows now vs (user_list d) = Inr tbl" and
      d': "d' = \<lparr>user_list = tbl,
                 user_stats = [s\<lparr>total_users := total_users s + int (length vs),
                   last_updated := (if vs = [] then last_updated s else now)\<rparr>]\<rparr>"
      by blast
    from insert_rows_Inr [OF t] have "length tbl = length (user_list d) + length vs" by auto
    with d' s(2,3) show ?thesis
      by (simp add: consistent_def)
  next
    case (DeleteFrom cond)
    with assms(2) have "delete_user_list now cond d = Inr d'" by simp
    from delete_user_list_single [OF s(1,2) this] s(2,3)
      sum_length_filter_compl [of cond "user_list d"]
    show ?thesis
      by (simp add: consistent_def)
  qed
qed

lemma transaction_consistent:
  "consistent d \<Longrightarrow> consistent (snd (transaction now st d))"
  by (auto simp: transaction_def split: sum.splits dest: run_statement_consistent)

subsection \<open>Reconciliation\<close>

lemma update_user_stats_const_total:
  "int4_min \<le> n \<Longrightarrow> n \<le> int4_max \<Longrightarrow>
   \<exists>tbl'. update_user_stats (\<lambda>x. n) now tbl = Inr tbl' \<and>
     map total_users tbl' = map (\<lambda>r. if stats_id r = 1 then n else total_users r) tbl \<and>
     map stats_id tbl' = map stats_id tbl"
  by (induction tbl) (auto simp: int4_def)

lemma recalculate_user_count_Inl:
  "recalculate_user_count now d = Inl e \<longleftrightarrow>
     e = NumericValueOutOfRange \<and> int4_max < int (length (user_list d))"
proof -
  have "int4_min \<le> int (length (user_list d))" by (simp add: int4_min_def)
  then show ?thesis
    using update_user_stats_const_total [of "int (length (user_list d))" now "user_stats d"]
    by (auto simp: recalculate_user_count_def int4_def split: sum.splits)
qed

lemma recalculate_user_count_Inr:
  assumes "recalculate_user_count now d = Inr (n, d')"
  shows "n = int (length (user_list d))" and "n \<le> int4_max" and "user_list d' = user_list d"
    and "map total_users (user_stats d') = map (\<lambda>r. if stats_id r = 1 then n else total_users r) (user_stats d)"
    and "map stats_id (user_stats d') = map stats_id (user_stats d)"
proof -
  from assms have n: "n = int (length (user_list d))" and le: "n \<le> int4_max"
    by (auto simp: recalculate_user_count_def int4_Inr split: sum.splits)
  then have "int4_min \<le> n" by (simp add: int4_min_def)
  from update_user_stats_const_total [OF this le, of now "user_stats d"] assms n
  show "map total_users (user_stats d') = map (\<lambda>r. if stats_id r = 1 then n else total_users r) (user_stats d)"
    and "map stats_id (user_stats d') = map stats_id (user_stats d)" and "user_list d' = user_list d"
    by (auto simp: recalculate_user_count_def int4_Inr split: sum.splits)
  show "n = int (length (user_list d))" and "n \<le> int4_max" by (fact n le)+
qed

subsection \<open>A multi-row statement against single-row statements\<close>

lemma update_user_count_user_list:
  "update_user_count TG_OP now (d\<lparr>user_list := tbl\<rparr>) =
     (case update_user_count TG_OP now d of
        Inl e \<Rightarrow> Inl e
      | Inr d' \<Rightarrow> Inr (d'\<lparr>user_list := tbl\<rparr>))"
  by (simp add: update_user_count_def split: sum.splits)

lemma update_user_count_keeps_user_list:
  "update_user_count TG_OP now d = Inr d' \<Longrightarrow> user_list d' = user_list d"
  by (auto simp: update_user_count_def split: sum.splits if_splits)

lemma for_each_row_user_list:
  "for_each_row TG_OP now rs (d\<lparr>user_list := tbl\<rparr>) =
     (case for_each_row TG_OP now rs d of
        Inl e \<Rightarrow> Inl e
      | Inr d' \<Rightarrow> Inr (d'\<lparr>user_list := tbl\<rparr>))"
proof (induction rs arbitrary: d)
  case Nil
  then show ?case by simp
next
  case (Cons r rs)
  show ?case
  proof (cases "update_user_count TG_OP now d")
    case (Inl e)
    then show ?thesis by (simp add: update_user_count_user_list)
  next
    case (Inr d1)
    then show ?thesis by (simp add: update_user_count_user_list Cons.IH)
  qed
qed

lemma insert_one_by_one_of_bulk:
  "insert_user_list now vs d = Inr d' \<Longrightarrow> insert_one_by_one now vs d = Inr d'"
proof (induction vs arbitrary: d)
  case Nil
  then show ?case
    by (simp add: insert_user_list_def insert_rows_def user_insert_trigger_def)
next
  case (Cons v vs)
  let ?tbl = "user_list d"
  from Cons.prems obtain tbl' where
    ins: "insert_rows now (v # vs) ?tbl = Inr tbl'" and
    trg: "for_each_row INSERT now (drop (length ?tbl) tbl') (d\<lparr>user_list := tbl'\<rparr>) = Inr d'"
    by (auto simp: insert_user_list_def user_insert_trigger_def split: sum.splits)
  from ins obtain w ws r where
    cv: "coerce_values v = Inr w" and cs: "coerce_rows vs = Inr ws" and
    nr: "new_row now w = Inr r" and nv: "violated_constraint r ?tbl = None" and
    st: "store_rows now ws (?tbl @ [r]) = Inr tbl'"
    by (auto simp: insert_rows_def split: sum.splits option.splits)
  from store_rows_Inr [OF st] obtain rs where rs: "tbl' = (?tbl @ [r]) @ rs" by blast
  then have dr: "drop (length ?tbl) tbl' = r # rs" by simp
  from trg [unfolded dr] obtain dS where
    dS: "update_user_count INSERT now d = Inr dS" and
    rest: "for_each_row INSERT now rs (dS\<lparr>user_list := tbl'\<rparr>) = Inr d'"
    by (auto simp: update_user_count_user_list split: sum.splits)
  let ?d1 = "dS\<lparr>user_list := ?tbl @ [r]\<rparr>"
  from cv nr nv dS have one: "insert_user_list now [v] d = Inr ?d1"
    by (simp add: insert_user_list_def insert_rows_single user_insert_trigger_def
      update_user_count_user_list)
  from rs have dr1: "drop (length (user_list ?d1)) tbl' = rs" by simp
  from cs st have "insert_rows now vs (user_list ?d1) = Inr tbl'"
    by (simp add: insert_rows_def)
  with rest dr1 have "insert_user_list now vs ?d1 = Inr d'"
    by (simp add: insert_user_list_def user_insert_trigger_def)
  from Cons.IH [OF this] one show ?case by simp
qed

lemma filter_id_single:
  assumes "distinct (map user_id tbl)" and "x \<in> set tbl"
  shows "filter (\<lambda>r. user_id r = user_id x) tbl = [x]"
  using assms
proof (induction tbl)
  case Nil
  then show ?case by simp
next
  case (Cons a tbl)
  show ?case
  proof (cases "a = x")
    case True
    with Cons.prems(1) have "user_id x \<notin> user_id ` set tbl" by simp
    then have "\<forall>r \<in> set tbl. user_id r \<noteq> user_id x" by (metis imageI)
    then have "filter (\<lambda>r. user_id r = user_id x) tbl = []" by (simp add: filter_empty_conv)
    with True show ?thesis by simp
  next
    case False
    with Cons.prems have "x \<in> set tbl" and "user_id a \<noteq> user_id x" by auto
    with Cons.IH Cons.prems(1) show ?thesis by simp
  qed
qed

lemma filter_cond_rest:
  assumes "distinct (map user_id tbl)" and "filter cond tbl = x # xs"
  shows "filter cond (filter (\<lambda>r. \<not> user_id r = user_id x) tbl) = xs"
proof -
  from assms(1) have "distinct (map user_id (filter cond tbl))"
    by (simp add: distinct_map_filter)
  with assms(2) have "user_id x \<notin> user_id ` set xs" by simp
  then have "\<forall>r \<in> set xs. user_id r \<noteq> user_id x" by (metis imageI)
  then have "filter (\<lambda>r. \<not> user_id r = user_id x) xs = xs" by (simp add: filter_id_conv)
  moreover have "filter cond (filter (\<lambda>r. \<not> user_id r = user_id x) tbl) =
      filter (\<lambda>r. \<not> user_id r = user_id x) (filter cond tbl)"
    by (simp add: conj_commute)
  ultimately show ?thesis using assms(2) by simp
qed

lemma filter_kept_rest:
  assumes "distinct (map user_id tbl)" and "filter cond tbl = x # xs"
  shows "filter (\<lambda>r. \<not> cond r) (filter (\<lambda>r. \<not> user_id r = user_id x) tbl) =
         filter (\<lambda>r. \<not> cond r) tbl"
proof -
  from assms(2) have "x \<in> set (filter cond tbl)" by simp
  then have x: "x \<in> set tbl" "cond x" by simp_all
  from assms(1) have inj: "inj_on user_id (set tbl)" by (simp add: distinct_map)
  have "\<forall>r \<in> set tbl. \<not> cond r \<longrightarrow> user_id r \<noteq> user_id x"
    using x inj by (auto dest: inj_onD)
  then show ?thesis by (auto intro: filter_cong)
qed

lemma delete_one_by_one_of_bulk:
  "distinct (map user_id (user_list d)) \<Longrightarrow> filter cond (user_list d) = xs \<Longrightarrow>
   delete_user_list now cond d = Inr d' \<Longrightarrow> delete_one_by_one now xs d = Inr d'"
proof (induction xs arbitrary: d)
  case Nil
  from Nil.prems(2) have "filter (\<lambda>r. \<not> cond r) (user_list d) = user_list d"
    by (simp add: filter_empty_conv filter_id_conv)
  with Nil.prems(2,3) show ?case by (simp add: delete_user_list_def user_delete_trigger_def)
next
  case (Cons x xs)
  let ?tbl = "user_list d"
  let ?kept = "filter (\<lambda>r. \<not> cond r) ?tbl"
  let ?tbl1 = "filter (\<lambda>r. \<not> user_id r = user_id x) ?tbl"
  from Cons.prems(2,3) have
    trg: "for_each_row DELETE now (x # xs) (d\<lparr>user_list := ?kept\<rparr>) = Inr d'"
    by (simp add: delete_user_list_def user_delete_trigger_def)
  then obtain dS where
    dS: "update_user_count DELETE now d = Inr dS" and
    rest: "for_each_row DELETE now xs (dS\<lparr>user_list := ?kept\<rparr>) = Inr d'"
    by (auto simp: update_user_count_user_list split: sum.splits)
  let ?d1 = "dS\<lparr>user_list := ?tbl1\<rparr>"
  from Cons.prems(2) have "x \<in> set (filter cond ?tbl)" by simp
  then have "x \<in> set ?tbl" by simp
  from filter_id_single [OF Cons.prems(1) this] dS
  have one: "delete_user_list now (\<lambda>r. user_id r = user_id x) d = Inr ?d1"
    by (simp add: delete_user_list_def user_delete_trigger_def update_user_count_user_list)
  from Cons.prems(1) have dist1: "distinct (map user_id (user_list ?d1))"
    by (simp add: distinct_map_filter)
  from filter_cond_rest [OF Cons.prems(1,2)] have f1: "filter cond (user_list ?d1) = xs"
    by simp
  from filter_kept_rest [OF Cons.prems(1,2)] rest f1
  have "delete_user_list now cond ?d1 = Inr d'"
    by (simp add: delete_user_list_def user_delete_trigger_def)
  from Cons.IH [OF dist1 f1 this] one show ?case by simp
qed

subsection \<open>The numbered ledger satisfies the constraints\<close>

lemma decimal_not_Nil: "decimal n \<noteq> []"
  by (subst decimal.simps) simp

lemma digit_inj:
  assumes "a < 10" and "b < 10" and "(char_of (48 + a) :: char) = char_of (48 + b)"
  shows "a = (b::nat)"
proof -
  from assms(3) have "of_char (char_of (48 + a) :: char) = (of_char (char_of (48 + b) :: char) :: nat)"
    by simp
  with assms(1,2) show ?thesis by simp
qed

lemma decimal_inj: "decimal m = decimal n \<Longrightarrow> m = n"
proof (induction m arbitrary: n rule: decimal.induct)
  case (1 m)
  show ?case
  proof (cases "m < 10")
    case True
    with "1.prems" have e: "[char_of (48 + m)] = decimal n" by (subst (asm) decimal.simps) simp
    show ?thesis
    proof (cases "n < 10")
      case n: True
      with e have "(char_of (48 + m) :: char) = char_of (48 + n)" by (subst (asm) decimal.simps) simp
      with True n show ?thesis by (rule digit_inj)
    next
      case False
      with e have "[char_of (48 + m)] = decimal (n div 10) @ [char_of (48 + n mod 10)]"
        by (subst (asm) decimal.simps) simp
      then have "decimal (n div 10) = []" by simp
      then show ?thesis by (simp add: decimal_not_Nil)
    qed
  next
    case False
    with "1.prems" have e: "decimal (m div 10) @ [char_of (48 + m mod 10)] = decimal n"
      by (subst (asm) decimal.simps) simp
    show ?thesis
    proof (cases "n < 10")
      case True
      with e have "decimal (m div 10) @ [char_of (48 + m mod 10)] = [char_of (48 + n)]"
        by (subst (asm) (2) decimal.simps) simp
      then have "decimal (m div 10) = []" by simp
      then show ?thesis by (simp add: decimal_not_Nil)
    next
      case n: False
      with e have "decimal (m div 10) @ [char_of (48 + m mod 10)] =
          decimal (n div 10) @ [char_of (48 + n mod 10)]"
        by (subst (asm) (2) decimal.simps) simp
      then have d: "decimal (m div 10) = decimal (n div 10)"
        and c: "(char_of (48 + m mod 10) :: char) = char_of (48 + n mod 10)" by simp_all
      from "1.IH" [OF False d] have q: "m div 10 = n div 10" .
      have "m mod 10 = n mod 10" using c by (intro digit_inj) simp_all
      with q show ?thesis by (metis div_mult_mod_eq)
    qed
  qed
qed

lemma numbered_user_list_valid: "valid_user_list (numbered_user_list n)"
proof -
  have 1: "inj_on (\<lambda>i. int i) (set [0..<n])" by (simp add: inj_on_def)
  have 2: "inj_on decimal (set [0..<n])" by (auto simp: inj_on_def dest: decimal_inj)
  have 3: "inj_on (\<lambda>i. decimal i @ ''@example.com'') (set [0..<n])"
    by (auto simp: inj_on_def dest: decimal_inj)
  have "map user_id (numbered_user_list n) = map (\<lambda>i. int i) [0..<n]"
    and "map username (numbered_user_list n) = map decimal [0..<n]"
    and "map email (numbered_user_list n) = map (\<lambda>i. decimal i @ ''@example.com'') [0..<n]"
    by (simp_all add: numbered_user_list_def numbered_user_def)
  with 1 2 3 show ?thesis
    by (simp add: valid_user_list_def distinct_map)
qed

lemma length_numbered_user_list: "length (numbered_user_list n) = n"
  by (simp add: numbered_user_list_def)

subsection \<open>A missing counter row, colliding keys, and the read path\<close>

lemma update_user_count_no_counter_row:
  "user_stats d = [] \<Longrightarrow> update_user_count TG_OP now d = Inr d"
  by (cases d) (simp add: update_user_count_def)

lemma for_each_row_no_counter_row:
  "user_stats d = [] \<Longrightarrow> for_each_row TG_OP now rs d = Inr d"
  by (induction rs) (simp_all add: update_user_count_no_counter_row)




lemma violated_constraint_None:
  "violated_constraint r tbl = None \<longleftrightarrow>
     (\<forall>x \<in> set tbl. user_id x \<noteq> user_id r \<and> username x \<noteq> username r \<and> email x \<noteq> email r)"
  by (auto simp: violated_constraint_def)



lemma reconcile_consistent:
  assumes "consistent d"
  shows "consistent (snd (reconcile now d))"
proof (cases "recalculate_user_count now d")
  case (Inl e)
  with assms show ?thesis by (simp add: reconcile_def)
next
  case (Inr p)
  from consistentD [OF assms] obtain s where
    s: "user_stats d = [s]" "stats_id s = 1" by blast
  from Inr s show ?thesis
    by (auto simp: reconcile_def recalculate_user_count_def int4_Inr consistent_def
      split: sum.splits)
qed

lemma query_select_user_stats_db: "snd (query conn fault select_user_stats d) = d"
  by (auto simp: query_def select_user_stats_def split: option.splits)

lemma query_recalculate_db:
  "snd (query conn fault (select_recalculate_user_count now) d) = d \<or>
   snd (query conn fault (select_recalculate_user_count now) d) = snd (reconcile now d)"
  by (auto simp: query_def select_recalculate_user_count_def reconcile_def
    split: option.splits sum.splits)

lemma getUserCount_db:
  "snd (getUserCount conn link now d) = d \<or>
   snd (getUserCount conn link now d) = snd (reconcile now d)"
proof -
  obtain o1 d1 where q1: "query conn (link 0) select_user_stats d = (o1, d1)"
    by (cases "query conn (link 0) select_user_stats d")
  with query_select_user_stats_db [of conn "link 0" d] have d1: "d1 = d" by simp
  obtain o2 d2 where q2: "query conn (link 1) (select_recalculate_user_count now) d = (o2, d2)"
    by (cases "query conn (link 1) (select_recalculate_user_count now) d")
  with query_recalculate_db [of conn "link 1" now d]
  have d2: "d2 = d \<or> d2 = snd (reconcile now d)" by simp
  obtain o3 d3 where q3: "query conn (link 2) select_user_stats d2 = (o3, d3)"
    by (cases "query conn (link 2) select_user_stats d2")
  with query_select_user_stats_db [of conn "link 2" d2] have d3: "d3 = d2" by simp
  have "snd (getUserCount conn link now d) = d \<or> snd (getUserCount conn link now d) = d2"
    using q1 q2 q3 d1 d3
    by (auto simp: getUserCount_def split: sum.splits)
  with d2 show ?thesis by auto
qed

lemma reachable_consistent: "reachable d \<Longrightarrow> consistent d"
proof (induction rule: reachable.induct)
  case (provisioned now)
  show ?case by (simp add: schema_sql_def empty_db_def init_user_stats_def consistent_def)
next
  case (mutation d now st)
  then show ?case by (simp add: transaction_consistent)
next
  case (reconciliation d now)
  then show ?case by (simp add: reconcile_consistent)
next
  case (read d conn link now)
  from getUserCount_db [of conn link now d] read.IH reconcile_consistent [OF read.IH, of now]
  show ?case by auto
qed

subsection \<open>The operations keep the constraints of the schema\<close>

text \<open>
  A table \<open>user_stats\<close> that satisfies its constraints is empty or holds the one row
  with \<open>id = 1\<close>.
\<close>

lemma valid_user_stats_cases:
  assumes "valid_user_stats tbl"
  shows "tbl = [] \<or> (\<exists>s. tbl = [s] \<and> stats_id s = 1)"
proof (cases tbl)
  case Nil
  then show ?thesis by simp
next
  case (Cons s rest)
  show ?thesis
  proof (cases rest)
    case Nil
    with Cons assms show ?thesis by (simp add: valid_user_stats_def)
  next
    case (Cons s' rest')
    with \<open>tbl = s # rest\<close> assms have False by (auto simp: valid_user_stats_def)
    then show ?thesis ..
  qed
qed

lemma store_rows_valid:
  "valid_user_list tbl \<Longrightarrow> store_rows now ws tbl = Inr tbl' \<Longrightarrow> valid_user_list tbl'"
proof (induction ws arbitrary: tbl)
  case Nil
  then show ?case by simp
next
  case (Cons w ws)
  from Cons.prems(2) obtain r where nv: "violated_constraint r tbl = None"
    and rest: "store_rows now ws (tbl @ [r]) = Inr tbl'"
    by (auto split: sum.splits option.splits)
  from nv have "user_id r \<notin> user_id ` set tbl" "username r \<notin> username ` set tbl"
    "email r \<notin> email ` set tbl"
    by (auto simp: violated_constraint_None)
  with Cons.prems(1) have "valid_user_list (tbl @ [r])"
    by (simp add: valid_user_list_def)
  from Cons.IH [OF this rest] show ?case .
qed

lemma insert_rows_valid:
  "valid_user_list tbl \<Longrightarrow> insert_rows now vs tbl = Inr tbl' \<Longrightarrow> valid_user_list tbl'"
  by (auto simp: insert_rows_def split: sum.splits dest: store_rows_valid)

lemma update_user_stats_valid:
  "valid_user_stats tbl \<Longrightarrow> update_user_stats f now tbl = Inr tbl' \<Longrightarrow> valid_user_stats tbl'"
proof -
  have "update_user_stats f now tbl = Inr tbl' \<Longrightarrow>
      map stats_id tbl' = map stats_id tbl \<and>
      (list_all (\<lambda>r. int4_min \<le> total_users r \<and> total_users r \<le> int4_max) tbl \<longrightarrow>
       list_all (\<lambda>r. int4_min \<le> total_users r \<and> total_users r \<le> int4_max) tbl')"
    by (induction tbl arbitrary: tbl') (auto simp: int4_Inr split: if_splits sum.splits)
  moreover have "valid_user_stats t \<longleftrightarrow> distinct (map stats_id t) \<and>
      list_all (\<lambda>i. i = 1) (map stats_id t) \<and>
      list_all (\<lambda>r. int4_min \<le> total_users r \<and> total_users r \<le> int4_max) t" for t
    by (auto simp: valid_user_stats_def list_all_iff)
  ultimately show "valid_user_stats tbl \<Longrightarrow> update_user_stats f now tbl = Inr tbl' \<Longrightarrow>
      valid_user_stats tbl'"
    by simp
qed

lemma update_user_count_valid:
  "valid_db d \<Longrightarrow> update_user_count TG_OP now d = Inr d' \<Longrightarrow> valid_db d'"
  by (auto simp: update_user_count_def valid_db_def split: if_splits sum.splits
    dest: update_user_stats_valid)

lemma for_each_row_valid:
  "valid_db d \<Longrightarrow> for_each_row TG_OP now rs d = Inr d' \<Longrightarrow> valid_db d'"
  by (induction rs arbitrary: d) (auto split: sum.splits dest: update_user_count_valid)

lemma run_statement_valid:
  assumes "valid_db d" and "run_statement now st d = Inr d'"
  shows "valid_db d'"
proof (cases st)
  case (InsertInto vs)
  with assms(2) obtain tbl where
    t: "insert_rows now vs (user_list d) = Inr tbl" and
    f: "for_each_row INSERT now (drop (length (user_list d)) tbl) (d\<lparr>user_list := tbl\<rparr>) = Inr d'"
    by (auto simp: insert_user_list_def user_insert_trigger_def split: sum.splits)
  from assms(1) insert_rows_valid [OF _ t] have "valid_db (d\<lparr>user_list := tbl\<rparr>)"
    by (simp add: valid_db_def)
  from for_each_row_valid [OF this f] show ?thesis .
next
  case (DeleteFrom cond)
  with assms(2) have
    f: "for_each_row DELETE now (filter cond (user_list d))
          (d\<lparr>user_list := filter (\<lambda>r. \<not> cond r) (user_list d)\<rparr>) = Inr d'"
    by (simp add: delete_user_list_def user_delete_trigger_def)
  from assms(1) have "valid_db (d\<lparr>user_list := filter (\<lambda>r. \<not> cond r) (user_list d)\<rparr>)"
    by (simp add: valid_db_def valid_user_list_def distinct_map_filter)
  from for_each_row_valid [OF this f] show ?thesis .
qed

lemma transaction_valid: "valid_db d \<Longrightarrow> valid_db (snd (transaction now st d))"
  by (auto simp: transaction_def split: sum.splits dest: run_statement_valid)

lemma reconcile_valid: "valid_db d \<Longrightarrow> valid_db (snd (reconcile now d))"
  by (auto simp: reconcile_def recalculate_user_count_def valid_db_def split: sum.splits
    dest: update_user_stats_valid)

lemma schema_sql_valid: "valid_db (schema_sql now empty_db)"
  by (simp add: schema_sql_def empty_db_def init_user_stats_def valid_db_def
    valid_user_list_def valid_user_stats_def int4_min_def int4_max_def)

lemma reachable_valid: "reachable d \<Longrightarrow> valid_db d"
proof (induction rule: reachable.induct)
  case (provisioned now)
  show ?case by (rule schema_sql_valid)
next
  case (mutation d now st)
  then show ?case by (simp add: transaction_valid)
next
  case (reconciliation d now)
  then show ?case by (simp add: reconcile_valid)
next
  case (read d conn link now)
  from getUserCount_db [of conn link now d] read.IH reconcile_valid [OF read.IH, of now]
  show ?case by auto
qed

section \<open>The claims\<close>

lemmas run_defs =
  transaction_def insert_user_list_def insert_rows_def coerce_values_def integer_value_def
  varchar_255_def new_row_def violated_constraint_def delete_user_list_def
  user_insert_trigger_def user_delete_trigger_def update_user_count_def
  int4_def int4_min_def int4_max_def

text \<open>
  C1. From a database in which the counter row holds the number of rows of
  \<open>user_list\<close>, after every transaction of any sequence of INSERT and DELETE
  statements on \<open>user_list\<close> (a statement that fails is rolled back and changes
  nothing) the counter row again holds the number of rows of \<open>user_list\<close>.
\<close>

theorem count_equals_ledger_after_each_commit:
  "consistent d \<Longrightarrow> \<forall>s \<in> set (history txs d). consistent s"
proof (induction txs arbitrary: d)
  case Nil
  then show ?case by simp
next
  case (Cons tx txs)
  obtain now st where tx: "tx = (now, st)" by (cases tx)
  from Cons.prems have c: "consistent (snd (transaction now st d))"
    by (rule transaction_consistent)
  from Cons.IH [OF c] c tx show ?case
    by (simp add: Let_def)
qed

text \<open>
  Four transactions on the provisioned database: one row, two rows, a duplicate
  username (rolled back), a delete. Row counts and counters after each are 1, 3, 3, 2.
\<close>

theorem count_equals_ledger_after_each_commit_witness:
  "consistent \<lparr>user_list = [], user_stats = [\<lparr>stats_id = 1, total_users = 0, last_updated = 0\<rparr>]\<rparr> \<and>
   list_all consistent (history
        [(1, InsertInto [\<lparr>new_id = Some 1, new_username = Some ''ann'', new_email = Some ''ann@example.com''\<rparr>]),
         (2, InsertInto [\<lparr>new_id = Some 2, new_username = Some ''bob'', new_email = Some ''bob@example.com''\<rparr>,
                         \<lparr>new_id = Some 3, new_username = Some ''cy'', new_email = Some ''cy@example.com''\<rparr>]),
         (3, InsertInto [\<lparr>new_id = Some 4, new_username = Some ''ann'', new_email = Some ''ann2@example.com''\<rparr>]),
         (4, DeleteFrom (\<lambda>r. username r = ''bob''))]
        \<lparr>user_list = [], user_stats = [\<lparr>stats_id = 1, total_users = 0, last_updated = 0\<rparr>]\<rparr>) \<and>
   map (\<lambda>s. (length (user_list s), map total_users (user_stats s))) (history
        [(1, InsertInto [\<lparr>new_id = Some 1, new_username = Some ''ann'', new_email = Some ''ann@example.com''\<rparr>]),
         (2, InsertInto [\<lparr>new_id = Some 2, new_username = Some ''bob'', new_email = Some ''bob@example.com''\<rparr>,
                         \<lparr>new_id = Some 3, new_username = Some ''cy'', new_email = Some ''cy@example.com''\<rparr>]),
         (3, InsertInto [\<lparr>new_id = Some 4, new_username = Some ''ann'', new_email = Some ''ann2@example.com''\<rparr>]),
         (4, DeleteFrom (\<lambda>r. username r = ''bob''))]
        \<lparr>user_list = [], user_stats = [\<lparr>stats_id = 1, total_users = 0, last_updated = 0\<rparr>]\<rparr>) =
     [(1, [1]), (3, [3]), (3, [3]), (2, [2])]"
proof -
  let ?ann = "\<lparr>user_id = 1, username = ''ann'', email = ''ann@example.com'',
                 created_at = 1, updated_at = 1\<rparr>"
  let ?bob = "\<lparr>user_id = 2, username = ''bob'', email = ''bob@example.com'',
                 created_at = 2, updated_at = 2\<rparr>"
  let ?cy = "\<lparr>user_id = 3, username = ''cy'', email = ''cy@example.com'',
                created_at = 2, updated_at = 2\<rparr>"
  let ?d0 = "\<lparr>user_list = [], user_stats = [\<lparr>stats_id = 1, total_users = 0, last_updated = 0\<rparr>]\<rparr>"
  let ?d1 = "\<lparr>user_list = [?ann],
               user_stats = [\<lparr>stats_id = 1, total_users = 1, last_updated = 1\<rparr>]\<rparr>"
  let ?d2 = "\<lparr>user_list = [?ann, ?bob, ?cy],
               user_stats = [\<lparr>stats_id = 1, total_users = 3, last_updated = 2\<rparr>]\<rparr>"
  let ?d4 = "\<lparr>user_list = [?ann, ?cy],
               user_stats = [\<lparr>stats_id = 1, total_users = 2, last_updated = 4\<rparr>]\<rparr>"
  let ?st1 = "InsertInto [\<lparr>new_id = Some 1, new_username = Some ''ann'', new_email = Some ''ann@example.com''\<rparr>]"
  let ?st2 = "InsertInto [\<lparr>new_id = Some 2, new_username = Some ''bob'', new_email = Some ''bob@example.com''\<rparr>,
                         \<lparr>new_id = Some 3, new_username = Some ''cy'', new_email = Some ''cy@example.com''\<rparr>]"
  let ?st3 = "InsertInto [\<lparr>new_id = Some 4, new_username = Some ''ann'', new_email = Some ''ann2@example.com''\<rparr>]"
  let ?st4 = "DeleteFrom (\<lambda>r. username r = ''bob'')"
  have h: "consistent ?d0"
    by (simp add: consistent_def)
  have t1: "transaction 1 ?st1 ?d0 = (None, ?d1)"
    by (simp add: run_defs)
  have t2: "transaction 2 ?st2 ?d1 = (None, ?d2)"
    by (simp add: run_defs)
  have t3: "transaction 3 ?st3 ?d2 = (Some (UniqueViolation ''user_list_username_key''), ?d2)"
    by (simp add: run_defs)
  have t4: "transaction 4 ?st4 ?d2 = (None, ?d4)"
    by (simp add: run_defs)
  have hist: "history [(1, ?st1), (2, ?st2), (3, ?st3), (4, ?st4)] ?d0 = [?d1, ?d2, ?d2, ?d4]"
    by (simp add: t1 t2 t3 t4 Let_def)
  have e: "map (\<lambda>s. (length (user_list s), map total_users (user_stats s)))
      (history [(1, ?st1), (2, ?st2), (3, ?st3), (4, ?st4)] ?d0) =
     [(1, [1]), (3, [3]), (3, [3]), (2, [2])]"
    by (simp only: hist) simp
  from count_equals_ledger_after_each_commit [OF h] h e show ?thesis
    by (simp only: list_all_iff) blast
qed

text \<open>
  C2 as stated fails where the counter row is missing: an INSERT into a table of two
  users then commits, the row is in \<open>user_list\<close>, and no count is incremented, for
  \<open>user_stats\<close> is still empty.
\<close>

theorem insert_commits_without_increment:
  "transaction 9 (InsertInto [\<lparr>new_id = Some 4, new_username = Some ''dan'', new_email = Some ''dan@example.com''\<rparr>])
     \<lparr>user_list = [\<lparr>user_id = 1, username = ''ann'', email = ''ann@example.com'',
                     created_at = 3, updated_at = 3\<rparr>,
                   \<lparr>user_id = 2, username = ''bob'', email = ''bob@example.com'',
                     created_at = 3, updated_at = 3\<rparr>],
      user_stats = []\<rparr> =
   (None,
    \<lparr>user_list = [\<lparr>user_id = 1, username = ''ann'', email = ''ann@example.com'',
                     created_at = 3, updated_at = 3\<rparr>,
                   \<lparr>user_id = 2, username = ''bob'', email = ''bob@example.com'',
                     created_at = 3, updated_at = 3\<rparr>,
                   \<lparr>user_id = 4, username = ''dan'', email = ''dan@example.com'',
                     created_at = 9, updated_at = 9\<rparr>],
     user_stats = []\<rparr>)"
  by (simp add: run_defs)

text \<open>
  C2, amended. While the counter row is in \<open>user_stats\<close>, a committed INSERT of one
  row leaves that row appended to \<open>user_list\<close> and the counter row with \<open>total_users\<close>
  one higher and \<open>last_updated\<close> the current time; a committed DELETE of one row leaves
  the row removed and the counter row with \<open>total_users\<close> one lower and \<open>last_updated\<close>
  the current time. Both changes are in the one state that the transaction commits.
\<close>

theorem single_row_adjustment:
  assumes "user_stats d = [s]" and "stats_id s = 1"
  shows
    "(transaction now (InsertInto [v]) d = (None, d1) \<longrightarrow>
        (\<exists>w r. coerce_values v = Inr w \<and> new_row now w = Inr r \<and>
           d1 = \<lparr>user_list = user_list d @ [r],
                 user_stats = [s\<lparr>total_users := total_users s + 1, last_updated := now\<rparr>]\<rparr>)) \<and>
     (filter cond (user_list d) = [r0] \<and> transaction now (DeleteFrom cond) d = (None, d2) \<longrightarrow>
        d2 = \<lparr>user_list = filter (\<lambda>x. \<not> cond x) (user_list d),
              user_stats = [s\<lparr>total_users := total_users s - 1, last_updated := now\<rparr>]\<rparr>)"
proof (intro conjI impI)
  assume "transaction now (InsertInto [v]) d = (None, d1)"
  then have "insert_user_list now [v] d = Inr d1"
    by (auto simp: transaction_def split: sum.splits)
  from insert_user_list_single [OF assms this] obtain tbl where
    t: "insert_rows now [v] (user_list d) = Inr tbl" and
    d1: "d1 = \<lparr>user_list = tbl,
              user_stats = [s\<lparr>total_users := total_users s + 1, last_updated := now\<rparr>]\<rparr>"
    by auto
  from t obtain w r where "coerce_values v = Inr w" and "new_row now w = Inr r"
    and "tbl = user_list d @ [r]"
    by (auto simp: insert_rows_single split: sum.splits option.splits)
  with d1 show "\<exists>w r. coerce_values v = Inr w \<and> new_row now w = Inr r \<and>
           d1 = \<lparr>user_list = user_list d @ [r],
                 user_stats = [s\<lparr>total_users := total_users s + 1, last_updated := now\<rparr>]\<rparr>"
    by blast
next
  assume a: "filter cond (user_list d) = [r0] \<and> transaction now (DeleteFrom cond) d = (None, d2)"
  then have "delete_user_list now cond d = Inr d2"
    by (auto simp: transaction_def split: sum.splits)
  from delete_user_list_single [OF assms this] a
  show "d2 = \<lparr>user_list = filter (\<lambda>x. \<not> cond x) (user_list d),
              user_stats = [s\<lparr>total_users := total_users s - 1, last_updated := now\<rparr>]\<rparr>"
    by simp
qed

text \<open>One user and a counter of 1: inserting a second user at time 9, or deleting the first.\<close>

theorem single_row_adjustment_witness:
  "user_stats \<lparr>user_list = [\<lparr>user_id = 1, username = ''ann'', email = ''ann@example.com'',
                     created_at = 3, updated_at = 3\<rparr>],
       user_stats = [\<lparr>stats_id = 1, total_users = 1, last_updated = 3\<rparr>]\<rparr> =
     [\<lparr>stats_id = 1, total_users = 1, last_updated = 3\<rparr>] \<and>
   transaction 9 (InsertInto [\<lparr>new_id = Some 2, new_username = Some ''bob'', new_email = Some ''bob@example.com''\<rparr>])
     \<lparr>user_list = [\<lparr>user_id = 1, username = ''ann'', email = ''ann@example.com'',
                     created_at = 3, updated_at = 3\<rparr>],
       user_stats = [\<lparr>stats_id = 1, total_users = 1, last_updated = 3\<rparr>]\<rparr> =
   (None,
    \<lparr>user_list = [\<lparr>user_id = 1, username = ''ann'', email = ''ann@example.com'',
                     created_at = 3, updated_at = 3\<rparr>,
                  \<lparr>user_id = 2, username = ''bob'', email = ''bob@example.com'',
                     created_at = 9, updated_at = 9\<rparr>],
       user_stats = [\<lparr>stats_id = 1, total_users = 2, last_updated = 9\<rparr>]\<rparr>) \<and>
   transaction 9 (DeleteFrom (\<lambda>r. user_id r = 1))
     \<lparr>user_list = [\<lparr>user_id = 1, username = ''ann'', email = ''ann@example.com'',
                     created_at = 3, updated_at = 3\<rparr>],
       user_stats = [\<lparr>stats_id = 1, total_users = 1, last_updated = 3\<rparr>]\<rparr> =
   (None, \<lparr>user_list = [], user_stats = [\<lparr>stats_id = 1, total_users = 0, last_updated = 9\<rparr>]\<rparr>)"
proof -
  let ?ann = "\<lparr>user_id = 1, username = ''ann'', email = ''ann@example.com'',
                     created_at = 3, updated_at = 3\<rparr>"
  let ?s = "\<lparr>stats_id = 1, total_users = 1, last_updated = 3\<rparr>"
  let ?d = "\<lparr>user_list = [?ann], user_stats = [?s]\<rparr>"
  let ?bob = "\<lparr>new_id = Some 2, new_username = Some ''bob'', new_email = Some ''bob@example.com''\<rparr>"
  have h1: "user_stats ?d = [?s]" and h2: "stats_id ?s = 1" by simp_all
  have i: "fst (transaction 9 (InsertInto [?bob]) ?d) = None"
    and k: "fst (transaction 9 (DeleteFrom (\<lambda>r. user_id r = 1)) ?d) = None"
    and f: "filter (\<lambda>r. user_id r = 1) (user_list ?d) = [?ann]"
    by (simp_all add: run_defs)
  from i obtain d1 where t1: "transaction 9 (InsertInto [?bob]) ?d = (None, d1)"
    by (cases "transaction 9 (InsertInto [?bob]) ?d") simp
  from k obtain d2 where t2: "transaction 9 (DeleteFrom (\<lambda>r. user_id r = 1)) ?d = (None, d2)"
    by (cases "transaction 9 (DeleteFrom (\<lambda>r. user_id r = 1)) ?d") simp
  have cv: "coerce_values ?bob = Inr ?bob"
    by (simp add: coerce_values_def integer_value_def varchar_255_def int4_def int4_min_def
      int4_max_def)
  from single_row_adjustment [OF h1 h2, of 9 ?bob d1 "\<lambda>r. user_id r = 1" ?ann d2] t1 t2 f cv
  show ?thesis by (auto simp: new_row_def)
qed

text \<open>
  C3 as stated fails where the row count does not fit the INTEGER variable
  \<open>actual_count\<close>: on a ledger of \<open>2147483648\<close> rows the function raises
  \<open>integer out of range\<close>, stores nothing and returns nothing.
\<close>

theorem recalculate_user_count_overflow:
  "recalculate_user_count 7
     \<lparr>user_list = numbered_user_list 2147483648,
      user_stats = [\<lparr>stats_id = 1, total_users = 5, last_updated = 0\<rparr>]\<rparr> =
   Inl NumericValueOutOfRange"
  by (simp add: recalculate_user_count_def length_numbered_user_list int4_def int4_min_def
    int4_max_def)

text \<open>
  C3, amended. For every ledger of at most \<open>2147483647\<close> rows and every stored counter
  value, \<open>recalculate_user_count\<close> returns the number of rows of \<open>user_list\<close> and
  leaves the counter row holding that number, with \<open>last_updated\<close> the current time.
\<close>

theorem recalculate_user_count_repairs:
  assumes "user_stats d = [s]" and "stats_id s = 1" and "length (user_list d) \<le> 2147483647"
  shows "recalculate_user_count now d =
     Inr (int (length (user_list d)),
          d\<lparr>user_stats := [s\<lparr>total_users := int (length (user_list d)), last_updated := now\<rparr>]\<rparr>)"
  using assms
  by (simp add: recalculate_user_count_def int4_def int4_min_def int4_max_def)

text \<open>Three rows and a stored counter of 40: the call at time 7 returns 3 and stores 3.\<close>

theorem recalculate_user_count_repairs_witness:
  "user_stats \<lparr>user_list = numbered_user_list 3,
      user_stats = [\<lparr>stats_id = 1, total_users = 40, last_updated = 0\<rparr>]\<rparr> =
     [\<lparr>stats_id = 1, total_users = 40, last_updated = 0\<rparr>] \<and>
   length (user_list \<lparr>user_list = numbered_user_list 3,
      user_stats = [\<lparr>stats_id = 1, total_users = 40, last_updated = 0\<rparr>]\<rparr>) \<le> 2147483647 \<and>
   recalculate_user_count 7
     \<lparr>user_list = numbered_user_list 3,
      user_stats = [\<lparr>stats_id = 1, total_users = 40, last_updated = 0\<rparr>]\<rparr> =
   Inr (3, \<lparr>user_list = numbered_user_list 3,
      user_stats = [\<lparr>stats_id = 1, total_users = 3, last_updated = 7\<rparr>]\<rparr>)"
  using recalculate_user_count_repairs [of "\<lparr>user_list = numbered_user_list 3,
      user_stats = [\<lparr>stats_id = 1, total_users = 40, last_updated = 0\<rparr>]\<rparr>"
      "\<lparr>stats_id = 1, total_users = 40, last_updated = 0\<rparr>" 7]
  by (simp add: length_numbered_user_list)

text \<open>
  C4 does not hold of the code. With two users and no counter row, \<open>getUserCount\<close>
  finds no row, calls \<open>recalculate_user_count\<close>, whose UPDATE matches no row and
  inserts none, reads \<open>user_stats\<close> again, still empty, and returns \<open>rows[0]\<close> of an
  empty result, which is \<open>undefined\<close>. The table stays empty, and the route answers
  with status 500.
\<close>

theorem getUserCount_missing_row_undefined:
  "getUserCount \<lparr>pool = True, isConnected = True\<rparr> (\<lambda>k. None) 7
     \<lparr>user_list = numbered_user_list 2, user_stats = []\<rparr> =
     (Inr None, \<lparr>user_list = numbered_user_list 2, user_stats = []\<rparr>) \<and>
   get_api_usercount \<lparr>pool = True, isConnected = True\<rparr> (\<lambda>k. None) 7 ''2024-01-15T10:30:00.000Z''
     \<lparr>user_list = numbered_user_list 2, user_stats = []\<rparr> =
     (\<lparr>statusCode = 500,
       payload = Failure ''Internal Server Error'' ''Failed to retrieve user count''
         ''2024-01-15T10:30:00.000Z''\<rparr>,
      \<lparr>user_list = numbered_user_list 2, user_stats = []\<rparr>)"
  by (simp add: get_api_usercount_def getUserCount_def query_def select_user_stats_def
    select_recalculate_user_count_def recalculate_user_count_def length_numbered_user_list
    usercount_handler_def usercount_catch_def int4_def int4_min_def int4_max_def)

text \<open>
  C5 as stated fails: with no counter row, an INSERT commits, the row is in
  \<open>user_list\<close>, and \<open>user_stats\<close> is still empty.
\<close>

theorem mutation_without_counter_row_commits:
  "transaction 5 (InsertInto [\<lparr>new_id = Some 1, new_username = Some ''ann'', new_email = Some ''ann@example.com''\<rparr>])
     \<lparr>user_list = [], user_stats = []\<rparr> =
   (None,
    \<lparr>user_list = [\<lparr>user_id = 1, username = ''ann'', email = ''ann@example.com'',
                   created_at = 5, updated_at = 5\<rparr>],
     user_stats = []\<rparr>)"
  by (simp add: run_defs)

text \<open>
  C5, amended. While the counter row is missing, the trigger's UPDATE matches no row and
  raises nothing: an INSERT fails only where the checks of \<open>user_list\<close> itself
  refuse a row (a value not of its column's type, a NULL, a key that collides) and
  otherwise commits its rows, a DELETE commits, and in both cases \<open>user_stats\<close>
  stays empty.
\<close>

theorem mutation_without_counter_row:
  assumes "user_stats d = []"
  shows
    "transaction now (InsertInto vs) d =
       (case insert_rows now vs (user_list d) of
          Inl e \<Rightarrow> (Some e, d)
        | Inr tbl \<Rightarrow> (None, d\<lparr>user_list := tbl\<rparr>)) \<and>
     transaction now (DeleteFrom cond) d =
       (None, d\<lparr>user_list := filter (\<lambda>r. \<not> cond r) (user_list d)\<rparr>)"
  using assms
  by (simp add: transaction_def insert_user_list_def delete_user_list_def
    user_insert_trigger_def user_delete_trigger_def for_each_row_no_counter_row
    split: sum.splits)

text \<open>One user and no counter row: a second user is inserted, or the first deleted.\<close>

theorem mutation_without_counter_row_witness:
  "user_stats \<lparr>user_list = [\<lparr>user_id = 1, username = ''ann'', email = ''ann@example.com'',
                     created_at = 3, updated_at = 3\<rparr>], user_stats = []\<rparr> = [] \<and>
   transaction 9 (InsertInto [\<lparr>new_id = Some 2, new_username = Some ''bob'', new_email = Some ''bob@example.com''\<rparr>])
     \<lparr>user_list = [\<lparr>user_id = 1, username = ''ann'', email = ''ann@example.com'',
                     created_at = 3, updated_at = 3\<rparr>], user_stats = []\<rparr> =
   (None,
    \<lparr>user_list = [\<lparr>user_id = 1, username = ''ann'', email = ''ann@example.com'',
                     created_at = 3, updated_at = 3\<rparr>,
                  \<lparr>user_id = 2, username = ''bob'', email = ''bob@example.com'',
                     created_at = 9, updated_at = 9\<rparr>], user_stats = []\<rparr>) \<and>
   transaction 9 (DeleteFrom (\<lambda>r. user_id r = 1))
     \<lparr>user_list = [\<lparr>user_id = 1, username = ''ann'', email = ''ann@example.com'',
                     created_at = 3, updated_at = 3\<rparr>], user_stats = []\<rparr> =
   (None, \<lparr>user_list = [], user_stats = []\<rparr>)"
  using mutation_without_counter_row [of
    "\<lparr>user_list = [\<lparr>user_id = 1, username = ''ann'', email = ''ann@example.com'',
                     created_at = 3, updated_at = 3\<rparr>], user_stats = []\<rparr>"
    9 "[\<lparr>new_id = Some 2, new_username = Some ''bob'', new_email = Some ''bob@example.com''\<rparr>]"
    "\<lambda>r. user_id r = 1"]
  by (simp add: run_defs)




text \<open>
  C7 does not hold of the code. When the first query of the read is refused with
  \<open>ECONNREFUSED\<close>, the handler of \<open>GET /api/usercount\<close> catches the error and answers
  with status 500 and \<open>Internal Server Error\<close>, not with a service-unavailable status;
  the message is a fixed one. The global error handler, which the route never reaches,
  answers the same error with 503 and \<open>Service Unavailable\<close>.
\<close>

theorem usercount_unreachable_storage_500:
  "get_api_usercount \<lparr>pool = True, isConnected = True\<rparr>
     (\<lambda>k. Some \<lparr>code = Some ''ECONNREFUSED'', message = ''connect ECONNREFUSED 127.0.0.1:5432''\<rparr>)
     7 ''2024-01-15T10:30:00.000Z''
     \<lparr>user_list = [], user_stats = [\<lparr>stats_id = 1, total_users = 0, last_updated = 0\<rparr>]\<rparr> =
     (\<lparr>statusCode = 500,
       payload = Failure ''Internal Server Error'' ''Failed to retrieve user count''
         ''2024-01-15T10:30:00.000Z''\<rparr>,
      \<lparr>user_list = [], user_stats = [\<lparr>stats_id = 1, total_users = 0, last_updated = 0\<rparr>]\<rparr>) \<and>
   errorHandler ''2024-01-15T10:30:00.000Z''
     \<lparr>code = Some ''ECONNREFUSED'', message = ''connect ECONNREFUSED 127.0.0.1:5432''\<rparr> =
     \<lparr>statusCode = 503,
      payload = Failure ''Service Unavailable'' ''Database connection failed''
        ''2024-01-15T10:30:00.000Z''\<rparr>"
  by (simp add: get_api_usercount_def getUserCount_def query_def usercount_handler_def
    usercount_catch_def errorHandler_def)

text \<open>
  C8. Two calls of \<open>recalculate_user_count\<close> in a row, at any two times and on any
  database, give the same outcome (the same count returned, or the same error), and the
  counts stored in \<open>user_stats\<close> after the second call are those after the first.
\<close>

theorem reconcile_twice_same_count:
  "fst (reconcile t2 (snd (reconcile t1 d))) = fst (reconcile t1 d) \<and>
   map total_users (user_stats (snd (reconcile t2 (snd (reconcile t1 d))))) =
   map total_users (user_stats (snd (reconcile t1 d)))"
proof (cases "recalculate_user_count t1 d")
  case (Inl e)
  then have "recalculate_user_count t2 d = Inl e"
    by (simp add: recalculate_user_count_Inl)
  with Inl show ?thesis by (simp add: reconcile_def)
next
  case (Inr p)
  obtain n d1 where p: "p = (n, d1)" by (cases p)
  with Inr have r1: "recalculate_user_count t1 d = Inr (n, d1)" by simp
  note f1 = recalculate_user_count_Inr [OF r1]
  have "\<exists>n2 d2. recalculate_user_count t2 d1 = Inr (n2, d2)"
  proof (cases "recalculate_user_count t2 d1")
    case (Inl e)
    with f1 show ?thesis by (simp add: recalculate_user_count_Inl)
  next
    case (Inr q)
    then show ?thesis by (cases q) simp
  qed
  then obtain n2 d2 where r2: "recalculate_user_count t2 d1 = Inr (n2, d2)" by blast
  note f2 = recalculate_user_count_Inr [OF r2]
  from f1(1,3) f2(1) have nn: "n2 = n" by simp
  have "map total_users (user_stats d2) = map total_users (user_stats d1)"
  proof -
    have "map total_users (user_stats d2) =
          map (\<lambda>r. if stats_id r = 1 then n else total_users r) (user_stats d1)"
      using f2(4) nn by simp
    also have "\<dots> = map total_users (user_stats d1)"
    proof (rule nth_equalityI)
      show "length (map (\<lambda>r. if stats_id r = 1 then n else total_users r) (user_stats d1)) =
            length (map total_users (user_stats d1))" by simp
    next
      fix i assume "i < length (map (\<lambda>r. if stats_id r = 1 then n else total_users r) (user_stats d1))"
      then have i: "i < length (user_stats d1)" by simp
      have l: "length (user_stats d1) = length (user_stats d)"
        using arg_cong [OF f1(5), of length] by simp
      from i l have a: "stats_id (user_stats d1 ! i) = stats_id (user_stats d ! i)"
        using arg_cong [OF f1(5), of "\<lambda>xs. xs ! i"] by simp
      from i l have b: "total_users (user_stats d1 ! i) =
          (if stats_id (user_stats d ! i) = 1 then n else total_users (user_stats d ! i))"
        using arg_cong [OF f1(4), of "\<lambda>xs. xs ! i"] by simp
      from i a b show "map (\<lambda>r. if stats_id r = 1 then n else total_users r) (user_stats d1) ! i =
            map total_users (user_stats d1) ! i" by simp
    qed
    finally show ?thesis .
  qed
  with r1 r2 nn show ?thesis by (simp add: reconcile_def)
qed

text \<open>Three rows and a stored counter of 40: both calls return 3, and 3 is stored.\<close>

theorem reconcile_twice_same_count_witness:
  "fst (reconcile 7 \<lparr>user_list = numbered_user_list 3,
      user_stats = [\<lparr>stats_id = 1, total_users = 40, last_updated = 0\<rparr>]\<rparr>) = Inr 3 \<and>
   fst (reconcile 8 (snd (reconcile 7 \<lparr>user_list = numbered_user_list 3,
      user_stats = [\<lparr>stats_id = 1, total_users = 40, last_updated = 0\<rparr>]\<rparr>))) = Inr 3 \<and>
   map total_users (user_stats (snd (reconcile 8 (snd (reconcile 7
     \<lparr>user_list = numbered_user_list 3,
      user_stats = [\<lparr>stats_id = 1, total_users = 40, last_updated = 0\<rparr>]\<rparr>))))) = [3]"
proof -
  let ?d = "\<lparr>user_list = numbered_user_list 3,
      user_stats = [\<lparr>stats_id = 1, total_users = 40, last_updated = 0\<rparr>]\<rparr>"
  have a: "reconcile 7 ?d = (Inr 3, \<lparr>user_list = numbered_user_list 3,
      user_stats = [\<lparr>stats_id = 1, total_users = 3, last_updated = 7\<rparr>]\<rparr>)"
    by (simp add: reconcile_def recalculate_user_count_def length_numbered_user_list
      int4_def int4_min_def int4_max_def)
  from reconcile_twice_same_count [of 8 7 ?d] a show ?thesis by simp
qed

text \<open>
  C9. In every database reached from the provisioned one by transactions on
  \<open>user_list\<close>, calls of \<open>recalculate_user_count\<close> and reads by \<open>getUserCount\<close>,
  \<open>user_stats\<close> has exactly one row, its \<open>id\<close> is 1, and its count is not negative.
\<close>

theorem reachable_single_counter_row:
  "reachable d \<Longrightarrow> \<exists>r. user_stats d = [r] \<and> stats_id r = 1 \<and> 0 \<le> total_users r"
proof -
  assume "reachable d"
  then have "consistent d" by (rule reachable_consistent)
  from consistentD [OF this] show ?thesis by auto
qed

text \<open>The provisioned database after one INSERT.\<close>

theorem reachable_single_counter_row_witness:
  "reachable (snd (transaction 1
       (InsertInto [\<lparr>new_id = Some 1, new_username = Some ''ann'', new_email = Some ''ann@example.com''\<rparr>])
       (schema_sql 0 empty_db))) \<and>
   user_stats (snd (transaction 1
       (InsertInto [\<lparr>new_id = Some 1, new_username = Some ''ann'', new_email = Some ''ann@example.com''\<rparr>])
       (schema_sql 0 empty_db))) = [\<lparr>stats_id = 1, total_users = 1, last_updated = 1\<rparr>] \<and>
   (\<exists>r. user_stats (snd (transaction 1
       (InsertInto [\<lparr>new_id = Some 1, new_username = Some ''ann'', new_email = Some ''ann@example.com''\<rparr>])
       (schema_sql 0 empty_db))) = [r] \<and> stats_id r = 1 \<and> 0 \<le> total_users r)"
proof -
  let ?st = "InsertInto [\<lparr>new_id = Some 1, new_username = Some ''ann'', new_email = Some ''ann@example.com''\<rparr>]"
  have r: "reachable (snd (transaction 1 ?st (schema_sql 0 empty_db)))"
    by (rule reachable.mutation [OF reachable.provisioned])
  have e: "user_stats (snd (transaction 1 ?st (schema_sql 0 empty_db))) =
      [\<lparr>stats_id = 1, total_users = 1, last_updated = 1\<rparr>]"
    by (simp add: run_defs schema_sql_def empty_db_def init_user_stats_def)
  from reachable_single_counter_row [OF r] r e show ?thesis by blast
qed

text \<open>
  C10 as stated fails where the counter row is missing: an INSERT of two rows then
  succeeds, both rows are in \<open>user_list\<close>, and no count has changed, for \<open>user_stats\<close>
  is still empty.
\<close>

theorem two_row_insert_without_counter_row:
  "insert_user_list 5
     [\<lparr>new_id = Some 1, new_username = Some ''eve'', new_email = Some ''eve@example.com''\<rparr>,
      \<lparr>new_id = Some 2, new_username = Some ''fay'', new_email = Some ''fay@example.com''\<rparr>]
     \<lparr>user_list = [], user_stats = []\<rparr> =
   Inr \<lparr>user_list = [\<lparr>user_id = 1, username = ''eve'', email = ''eve@example.com'',
                        created_at = 5, updated_at = 5\<rparr>,
                      \<lparr>user_id = 2, username = ''fay'', email = ''fay@example.com'',
                        created_at = 5, updated_at = 5\<rparr>],
        user_stats = []\<rparr>"
  by (simp add: run_defs)

text \<open>
  C10, amended. While the counter row is in \<open>user_stats\<close>, an INSERT statement of \<open>k\<close> rows that succeeds
  leaves the counter \<open>k\<close> higher, and a DELETE statement that removes \<open>k\<close> rows leaves
  it \<open>k\<close> lower. The database after the statement is the one that the same rows,
  inserted or deleted by \<open>k\<close> single-row statements at the same time, produce (the
  single-row DELETE statements name the rows by \<open>id\<close>, the primary key, hence distinct).
\<close>

theorem multi_row_statement_adjustment:
  assumes "user_stats d = [s]" and "stats_id s = 1"
  shows
    "(insert_user_list now vs d = Inr d1 \<longrightarrow>
        map total_users (user_stats d1) = [total_users s + int (length vs)] \<and>
        insert_one_by_one now vs d = Inr d1) \<and>
     (delete_user_list now cond d = Inr d2 \<longrightarrow>
        map total_users (user_stats d2) =
          [total_users s - int (length (filter cond (user_list d)))] \<and>
        (distinct (map user_id (user_list d)) \<longrightarrow>
           delete_one_by_one now (filter cond (user_list d)) d = Inr d2))"
proof (intro conjI impI)
  assume a: "insert_user_list now vs d = Inr d1"
  from insert_user_list_single [OF assms a]
  show "map total_users (user_stats d1) = [total_users s + int (length vs)]" by auto
  from a show "insert_one_by_one now vs d = Inr d1" by (rule insert_one_by_one_of_bulk)
next
  assume b: "delete_user_list now cond d = Inr d2"
  from delete_user_list_single [OF assms b]
  show "map total_users (user_stats d2) =
          [total_users s - int (length (filter cond (user_list d)))]" by simp
  assume "distinct (map user_id (user_list d))"
  from this _ b show "delete_one_by_one now (filter cond (user_list d)) d = Inr d2"
    by (rule delete_one_by_one_of_bulk) simp
qed

text \<open>
  One user and a counter of 1: two rows inserted by one statement give 3; the two rows
  deleted again by one statement give 1.
\<close>

theorem multi_row_statement_adjustment_witness:
  "insert_user_list 9
     [\<lparr>new_id = Some 2, new_username = Some ''bob'', new_email = Some ''bob@example.com''\<rparr>,
      \<lparr>new_id = Some 3, new_username = Some ''cy'', new_email = Some ''cy@example.com''\<rparr>]
     \<lparr>user_list = [\<lparr>user_id = 1, username = ''ann'', email = ''ann@example.com'',
                     created_at = 3, updated_at = 3\<rparr>],
      user_stats = [\<lparr>stats_id = 1, total_users = 1, last_updated = 3\<rparr>]\<rparr> =
   Inr \<lparr>user_list = [\<lparr>user_id = 1, username = ''ann'', email = ''ann@example.com'',
                        created_at = 3, updated_at = 3\<rparr>,
                     \<lparr>user_id = 2, username = ''bob'', email = ''bob@example.com'',
                        created_at = 9, updated_at = 9\<rparr>,
                     \<lparr>user_id = 3, username = ''cy'', email = ''cy@example.com'',
                        created_at = 9, updated_at = 9\<rparr>],
        user_stats = [\<lparr>stats_id = 1, total_users = 3, last_updated = 9\<rparr>]\<rparr> \<and>
   insert_one_by_one 9
     [\<lparr>new_id = Some 2, new_username = Some ''bob'', new_email = Some ''bob@example.com''\<rparr>,
      \<lparr>new_id = Some 3, new_username = Some ''cy'', new_email = Some ''cy@example.com''\<rparr>]
     \<lparr>user_list = [\<lparr>user_id = 1, username = ''ann'', email = ''ann@example.com'',
                     created_at = 3, updated_at = 3\<rparr>],
      user_stats = [\<lparr>stats_id = 1, total_users = 1, last_updated = 3\<rparr>]\<rparr> =
   Inr \<lparr>user_list = [\<lparr>user_id = 1, username = ''ann'', email = ''ann@example.com'',
                        created_at = 3, updated_at = 3\<rparr>,
                     \<lparr>user_id = 2, username = ''bob'', email = ''bob@example.com'',
                        created_at = 9, updated_at = 9\<rparr>,
                     \<lparr>user_id = 3, username = ''cy'', email = ''cy@example.com'',
                        created_at = 9, updated_at = 9\<rparr>],
        user_stats = [\<lparr>stats_id = 1, total_users = 3, last_updated = 9\<rparr>]\<rparr> \<and>
   delete_user_list 10 (\<lambda>r. 1 < user_id r)
     \<lparr>user_list = [\<lparr>user_id = 1, username = ''ann'', email = ''ann@example.com'',
                        created_at = 3, updated_at = 3\<rparr>,
                     \<lparr>user_id = 2, username = ''bob'', email = ''bob@example.com'',
                        created_at = 9, updated_at = 9\<rparr>,
                     \<lparr>user_id = 3, username = ''cy'', email = ''cy@example.com'',
                        created_at = 9, updated_at = 9\<rparr>],
        user_stats = [\<lparr>stats_id = 1, total_users = 3, last_updated = 9\<rparr>]\<rparr> =
   Inr \<lparr>user_list = [\<lparr>user_id = 1, username = ''ann'', email = ''ann@example.com'',
                        created_at = 3, updated_at = 3\<rparr>],
        user_stats = [\<lparr>stats_id = 1, total_users = 1, last_updated = 10\<rparr>]\<rparr> \<and>
   delete_one_by_one 10
     [\<lparr>user_id = 2, username = ''bob'', email = ''bob@example.com'', created_at = 9, updated_at = 9\<rparr>,
      \<lparr>user_id = 3, username = ''cy'', email = ''cy@example.com'', created_at = 9, updated_at = 9\<rparr>]
     \<lparr>user_list = [\<lparr>user_id = 1, username = ''ann'', email = ''ann@example.com'',
                        created_at = 3, updated_at = 3\<rparr>,
                     \<lparr>user_id = 2, username = ''bob'', email = ''bob@example.com'',
                        created_at = 9, updated_at = 9\<rparr>,
                     \<lparr>user_id = 3, username = ''cy'', email = ''cy@example.com'',
                        created_at = 9, updated_at = 9\<rparr>],
        user_stats = [\<lparr>stats_id = 1, total_users = 3, last_updated = 9\<rparr>]\<rparr> =
   Inr \<lparr>user_list = [\<lparr>user_id = 1, username = ''ann'', email = ''ann@example.com'',
                        created_at = 3, updated_at = 3\<rparr>],
        user_stats = [\<lparr>stats_id = 1, total_users = 1, last_updated = 10\<rparr>]\<rparr>"
proof -
  let ?ann = "\<lparr>user_id = 1, username = ''ann'', email = ''ann@example.com'',
                 created_at = 3, updated_at = 3\<rparr>"
  let ?bob = "\<lparr>user_id = 2, username = ''bob'', email = ''bob@example.com'',
                 created_at = 9, updated_at = 9\<rparr>"
  let ?cy = "\<lparr>user_id = 3, username = ''cy'', email = ''cy@example.com'',
                created_at = 9, updated_at = 9\<rparr>"
  let ?vs = "[\<lparr>new_id = Some 2, new_username = Some ''bob'', new_email = Some ''bob@example.com''\<rparr>,
              \<lparr>new_id = Some 3, new_username = Some ''cy'', new_email = Some ''cy@example.com''\<rparr>]"
  let ?s = "\<lparr>stats_id = 1, total_users = 1, last_updated = 3\<rparr>"
  let ?s1 = "\<lparr>stats_id = 1, total_users = 3, last_updated = 9\<rparr>"
  let ?s2 = "\<lparr>stats_id = 1, total_users = 1, last_updated = 10\<rparr>"
  let ?d = "\<lparr>user_list = [?ann], user_stats = [?s]\<rparr>"
  let ?d1 = "\<lparr>user_list = [?ann, ?bob, ?cy], user_stats = [?s1]\<rparr>"
  let ?d2 = "\<lparr>user_list = [?ann], user_stats = [?s2]\<rparr>"
  have h1: "user_stats ?d = [?s]" and h2: "stats_id ?s = 1"
    and k1: "user_stats ?d1 = [?s1]" and k2: "stats_id ?s1 = 1" by simp_all
  have i: "insert_user_list 9 ?vs ?d = Inr ?d1"
    by (simp add: run_defs)
  have e: "delete_user_list 10 (\<lambda>r. 1 < user_id r) ?d1 = Inr ?d2"
    by (simp add: run_defs)
  have dist: "distinct (map user_id (user_list ?d1))" by simp
  have f: "filter (\<lambda>r. 1 < user_id r) (user_list ?d1) = [?bob, ?cy]" by simp
  from multi_row_statement_adjustment [OF h1 h2, where now = 9 and vs = ?vs and ?d1.0 = ?d1]
    multi_row_statement_adjustment [OF k1 k2, where now = 10 and cond = "\<lambda>r. 1 < user_id r"
      and ?d2.0 = ?d2] i e dist f
  show ?thesis by simp
qed

end
